theory Spec2Isabelle
  imports Main "HOL-Library.AList"
begin

section \<open>maptrans: the data model\<close>

text \<open>
  A shallow embedding of \<^verbatim>\<open>maptrans.go\<close>.

  A Go \<^verbatim>\<open>interface{}\<close> holds any dynamically typed value. The model keeps the shapes
  the package inspects or produces: \<^verbatim>\<open>nil\<close>, \<^verbatim>\<open>bool\<close>, \<^verbatim>\<open>int\<close>, \<^verbatim>\<open>string\<close>,
  \<^verbatim>\<open>map[string]interface{}\<close>, \<^verbatim>\<open>[]map[string]interface{}\<close> (what \<^verbatim>\<open>Translate\<close> stores for
  a \<^verbatim>\<open>MapArrayTranslation\<close>) and \<^verbatim>\<open>[]interface{}\<close> (what a JSON decoder produces for an
  array).

  A Go map is an association list: \<open>map_of\<close> is the lookup, \<open>AList.update\<close> the
  assignment \<^verbatim>\<open>m[k] = v\<close>, and the order of the list is the order in which \<^verbatim>\<open>range\<close>
  visits the entries. Go leaves that order unspecified; a statement proved for every
  list holds for every order. A \<^verbatim>\<open>nil\<close> map argument reads like the empty map in every
  operation the package performs on it, so both are the empty list; where the package
  \<^emph>\<open>returns\<close> a \<^verbatim>\<open>nil\<close> map or tests a map against \<^verbatim>\<open>nil\<close>, the model uses \<open>option\<close>.
\<close>

datatype Value =
    VNil
  | VBool bool
  | VInt int
  | VString string
  | VMap "(string \<times> Value) list"
  | VMapArray "(string \<times> Value) list list"
  | VArray "Value list"

type_synonym Record = "(string \<times> Value) list"

text \<open>
  The custom errors of the package, and \<open>errorString\<close> for what \<^verbatim>\<open>fmt.Errorf\<close> and
  \<^verbatim>\<open>errors.New\<close> build. \<^verbatim>\<open>fmt\<close>'s rendering of a dynamic value (\<^verbatim>\<open>%v\<close>, \<^verbatim>\<open>%T\<close>) is outside
  the model: a message built with such a verb keeps the verb.
\<close>

datatype error =
    InternalError string
  | MissingAttributeError string
  | InvalidPropertyError string string
  | errorString string

fun Error :: "error \<Rightarrow> string" where
  "Error (InternalError reason) = ''internal error: '' @ reason"
| "Error (MissingAttributeError name) =
     ''missing mandatory attribute '' @ [CHR 0x27] @ name @ [CHR 0x27]"
| "Error (InvalidPropertyError name reason) =
     ''property '' @ [CHR 0x27] @ name @ [CHR 0x27] @ '' is invalid: '' @ reason"
| "Error (errorString s) = s"

definition NewInternalError :: "string \<Rightarrow> error" where
  "NewInternalError reason = InternalError reason"

definition NewMissingAttributeError :: "string \<Rightarrow> error" where
  "NewMissingAttributeError name = MissingAttributeError name"

definition NewInvalidProp :: "string \<Rightarrow> string \<Rightarrow> error" where
  "NewInvalidProp name reason = InvalidPropertyError name reason"

text \<open>
  \<^verbatim>\<open>TranslationType\<close> is an \<^verbatim>\<open>int\<close> with five named values; any other integer reaches the
  \<^verbatim>\<open>default\<close> branch of the switches.
\<close>

datatype TranslationType =
    CustomTranslation
  | MapTranslation
  | MapArrayTranslation
  | ModifyTranslation
  | InsertTranslation
  | InvalidTranslation int

text \<open>
  The function types. A Go function returning \<^verbatim>\<open>(interface{}, error)\<close> returns a pair
  whose second component is \<open>None\<close> for \<^verbatim>\<open>nil\<close>. \<^verbatim>\<open>ModFunc\<close> and \<^verbatim>\<open>InsertFunc\<close> receive
  the destination map by reference and may assign into it (the package's own tests do
  both), so in the model they also return the destination map as they leave it. The
  functions are taken not to assign into the source map, and the value a function returns
  is a value of its own: a function that returns the destination map itself, which Go
  would store by reference, is outside the model.
\<close>

type_synonym MapFunc = "Value \<Rightarrow> Value \<times> error option"
type_synonym ModFunc = "Record \<Rightarrow> Record \<Rightarrow> Value \<Rightarrow> Record \<times> error option"
type_synonym InsertFunc = "Record \<Rightarrow> Record \<Rightarrow> string \<Rightarrow> Record \<times> Value \<times> error option"

text \<open>
  A description maps a field name to an \<^verbatim>\<open>interface{}\<close> that the package expects to be
  a \<^verbatim>\<open>string\<close> or a \<^verbatim>\<open>Description\<close>; \<open>DOther\<close> is any other value. The fields of
  \<open>DDescription\<close> are those of the struct, in its order; a \<^verbatim>\<open>nil\<close> function or
  \<^verbatim>\<open>SubTranslation\<close> is \<open>None\<close>.
\<close>

datatype Descr =
    isString: DString (str: string)
  | isDescription: DDescription
      (InsertFunc: "InsertFunc option")
      (Mandatory: bool)
      (MapFunc: "MapFunc option")
      (ModFunc: "ModFunc option")
      (SubTranslation: "(string \<times> Descr) list option")
      (TargetName: string)
      (Type: TranslationType)
  | DOther Value

type_synonym Description = "(string \<times> Descr) list"

section \<open>Library functions the package calls\<close>

text \<open>
  \<^verbatim>\<open>strings.TrimSpace\<close> removes leading and trailing white space as Unicode defines it.
  A Go string is a byte sequence read as UTF-8, and so is a \<open>string\<close> here.
  \<open>spaceWidth\<close> is the width in bytes of the white space rune a string starts with
  (0 when it starts with none): the six ASCII ones, U+0085 and U+00A0 (two bytes),
  U+1680, U+2000 to U+200A, U+2028, U+2029, U+202F, U+205F and U+3000 (three bytes).
  Their last bytes are continuation bytes, so a string ends with such a rune exactly
  when it ends with its encoding, which \<open>spaceWidthRev\<close> reads off the reversed string.
\<close>

definition asciiSpace :: "char \<Rightarrow> bool" where
  "asciiSpace c = (c \<in> {CHR 0x09, CHR 0x0A, CHR 0x0B, CHR 0x0C, CHR 0x0D, CHR 0x20})"

fun spaceWidth :: "string \<Rightarrow> nat" where
  "spaceWidth [] = 0"
| "spaceWidth [a] = (if asciiSpace a then 1 else 0)"
| "spaceWidth [a, b] =
     (if asciiSpace a then 1
      else if a = CHR 0xC2 \<and> (b = CHR 0x85 \<or> b = CHR 0xA0) then 2 else 0)"
| "spaceWidth (a # b # c # _) =
     (if asciiSpace a then 1
      else if a = CHR 0xC2 \<and> (b = CHR 0x85 \<or> b = CHR 0xA0) then 2
      else if a = CHR 0xE1 \<and> b = CHR 0x9A \<and> c = CHR 0x80 then 3
      else if a = CHR 0xE2 \<and> b = CHR 0x80 \<and>
              ((of_char c :: nat) \<in> {0x80..0x8A} \<or> c = CHR 0xA8 \<or> c = CHR 0xA9 \<or> c = CHR 0xAF)
        then 3
      else if a = CHR 0xE2 \<and> b = CHR 0x81 \<and> c = CHR 0x9F then 3
      else if a = CHR 0xE3 \<and> b = CHR 0x80 \<and> c = CHR 0x80 then 3
      else 0)"

fun spaceWidthRev :: "string \<Rightarrow> nat" where
  "spaceWidthRev [] = 0"
| "spaceWidthRev [a] = (if asciiSpace a then 1 else 0)"
| "spaceWidthRev [a, b] =
     (if asciiSpace a then 1 else if spaceWidth [b, a] = 2 then 2 else 0)"
| "spaceWidthRev (a # b # c # _) =
     (if asciiSpace a then 1
      else if spaceWidth [b, a] = 2 then 2
      else if spaceWidth [c, b, a] = 3 then 3
      else 0)"

function trimLeft :: "string \<Rightarrow> string" where
  "trimLeft s = (if spaceWidth s = 0 then s else trimLeft (drop (spaceWidth s) s))"
  by pat_completeness auto
termination
proof (relation "measure length")
  fix s :: string
  assume "spaceWidth s \<noteq> 0"
  then have "s \<noteq> []" by (cases s) auto
  with \<open>spaceWidth s \<noteq> 0\<close> show "(drop (spaceWidth s) s, s) \<in> measure length" by simp
qed simp

function trimRightRev :: "string \<Rightarrow> string" where
  "trimRightRev s = (if spaceWidthRev s = 0 then s else trimRightRev (drop (spaceWidthRev s) s))"
  by pat_completeness auto
termination
proof (relation "measure length")
  fix s :: string
  assume "spaceWidthRev s \<noteq> 0"
  then have "s \<noteq> []" by (cases s) auto
  with \<open>spaceWidthRev s \<noteq> 0\<close> show "(drop (spaceWidthRev s) s, s) \<in> measure length" by simp
qed simp

declare trimLeft.simps [simp del] trimRightRev.simps [simp del]

definition TrimSpace :: "string \<Rightarrow> string" where
  "TrimSpace s = rev (trimRightRev (rev (trimLeft s)))"


text \<open>
  \<^verbatim>\<open>mapstructure.Decode(value, &srcMaps)\<close> with \<^verbatim>\<open>srcMaps\<close> a
  \<^verbatim>\<open>[]map[string]interface{}\<close> belongs to an external package. The functions below take
  it as the parameter \<open>dec\<close>: \<open>Inr srcMaps\<close> when the value coerces to a sequence of
  maps, \<open>Inl err\<close> when it does not.
\<close>

type_synonym Decode = "Value \<Rightarrow> error + Record list"

section \<open>The value mappers used below\<close>

definition IDMap :: MapFunc where
  "IDMap src = (src, None)"

definition StringMap :: MapFunc where
  "StringMap src =
     (case src of
        VString srcStr \<Rightarrow> (VString (TrimSpace srcStr), None)
      | _ \<Rightarrow> (VString [], Some (errorString ''invalid type %T for %v'')))"

text \<open>
  \<^verbatim>\<open>validUUID\<close> is the regular expression
  \<^verbatim>\<open>^[0-9a-fA-F]{8}-[0-9a-fA-F]{4}-[0-9a-fA-F]{4}-[0-9a-fA-F]{4}-[0-9a-fA-F]{12}\<close>:
  anchored at the start only. \<open>hexRun n\<close> matches \<^verbatim>\<open>[0-9a-fA-F]{n}\<close> at the start of a
  string and \<open>dash\<close> matches \<^verbatim>\<open>-\<close>; both return what follows the match.
\<close>

definition isHexDigit :: "char \<Rightarrow> bool" where
  "isHexDigit c =
     (let n = (of_char c :: nat)
      in (0x30 \<le> n \<and> n \<le> 0x39) \<or> (0x61 \<le> n \<and> n \<le> 0x66) \<or> (0x41 \<le> n \<and> n \<le> 0x46))"

fun hexRun :: "nat \<Rightarrow> string \<Rightarrow> string option" where
  "hexRun 0 s = Some s"
| "hexRun (Suc n) [] = None"
| "hexRun (Suc n) (c # s) = (if isHexDigit c then hexRun n s else None)"

fun dash :: "string \<Rightarrow> string option" where
  "dash [] = None"
| "dash (c # s) = (if c = CHR ''-'' then Some s else None)"

definition validUUID :: "string \<Rightarrow> bool" where
  "validUUID s =
     (Option.bind (Option.bind (Option.bind (Option.bind (Option.bind (Option.bind
        (Option.bind (Option.bind (hexRun 8 s) dash) (hexRun 4)) dash) (hexRun 4)) dash)
        (hexRun 4)) dash) (hexRun 12) \<noteq> None)"

definition UUIDMap :: MapFunc where
  "UUIDMap src =
     (case src of
        VString srcStr \<Rightarrow>
          (if \<not> validUUID (TrimSpace srcStr)
           then (VString [], Some (errorString ''%v is not a valid UUID''))
           else (VString (TrimSpace srcStr), None))
      | _ \<Rightarrow> (VString [], Some (errorString ''%v is not a string'')))"

section \<open>Translate\<close>

text \<open>
  The first loop of \<^verbatim>\<open>Translate\<close>: the check for missing mandatory fields. It returns the
  error the loop leaves \<^verbatim>\<open>Translate\<close> with, or \<open>None\<close> when the loop runs to its end.
\<close>

fun checkMandatory :: "Record \<Rightarrow> Description \<Rightarrow> error option" where
  "checkMandatory src [] = None"
| "checkMandatory src ((k, v) # description) =
     (if isString v then checkMandatory src description
      else if \<not> isDescription v then Some (NewInternalError ''%v is not Description'')
      else if Mandatory v \<and> map_of src k = None then Some (NewMissingAttributeError k)
      else checkMandatory src description)"

text \<open>
  The third loop: insertion of missing values. A loop of \<^verbatim>\<open>Translate\<close> either leaves the
  function with a pair (\<open>Inl\<close> of what is returned) or runs to its end with the
  \<^verbatim>\<open>result\<close> map it has built (\<open>Inr\<close>).
\<close>

fun insertMissing ::
  "Record \<Rightarrow> Description \<Rightarrow> Record \<Rightarrow> (Record option \<times> error option) + Record" where
  "insertMissing src [] result = Inr result"
| "insertMissing src ((attr, v) # description) result =
     (if isString v then insertMissing src description result
      else if \<not> isDescription v
        then Inl (None, Some (NewInternalError ''%v is not a Description''))
      else if Type v \<noteq> InsertTranslation then insertMissing src description result
      else (case InsertFunc v of
              None \<Rightarrow> Inl (None, Some (NewInternalError (''missing translation func for '' @ attr)))
            | Some f \<Rightarrow>
                if map_of result (TargetName v) \<noteq> None then insertMissing src description result
                else (case f src result attr of
                        (result', val, Some err) \<Rightarrow> Inl (None, Some err)
                      | (result', val, None) \<Rightarrow>
                          insertMissing src description (AList.update (TargetName v) val result'))))"

text \<open>
  \<^verbatim>\<open>md.TargetName\<close> after the assignment \<^verbatim>\<open>md.TargetName = attr\<close> that the second loop makes
  to its copy \<^verbatim>\<open>md\<close> of the description when the name is empty.
\<close>

definition targetName :: "Descr \<Rightarrow> string \<Rightarrow> string" where
  "targetName md attr = (if TargetName md = [] then attr else TargetName md)"

text \<open>A \<^verbatim>\<open>nil\<close> map stored as a value reads as the empty map.\<close>

definition mapValue :: "Record option \<Rightarrow> Record" where
  "mapValue m = (case m of None \<Rightarrow> [] | Some r \<Rightarrow> r)"

definition subSize :: "Description option \<Rightarrow> nat" where
  "subSize sub = size_option (size_list (size_prod (\<lambda>_. 0) size)) sub"

text \<open>
  \<^verbatim>\<open>Translate\<close> itself, with its second loop as \<open>translateFields\<close> (the loop over the
  fields of \<^verbatim>\<open>src\<close> that are still to visit), the body of that loop as \<open>translateField\<close>,
  and the loop over \<^verbatim>\<open>srcMaps\<close> of the \<^verbatim>\<open>MapArrayTranslation\<close> case as \<open>translateMaps\<close>.
\<close>

function Translate :: "Decode \<Rightarrow> Record \<Rightarrow> Description option \<Rightarrow> Record option \<times> error option"
  and translateFields ::
    "Decode \<Rightarrow> Record \<Rightarrow> Description \<Rightarrow> Record \<Rightarrow> Record \<Rightarrow> (Record option \<times> error option) + Record"
  and translateField ::
    "Decode \<Rightarrow> Record \<Rightarrow> Description \<Rightarrow> string \<Rightarrow> Value \<Rightarrow> Record \<Rightarrow> (Record option \<times> error option) + Record"
  and translateMaps :: "Decode \<Rightarrow> Record list \<Rightarrow> Description option \<Rightarrow> error + Record list"
where
  "Translate dec src None = (Some src, None)"
| "Translate dec src (Some description) =
     (case checkMandatory src description of
        Some err \<Rightarrow> (None, Some err)
      | None \<Rightarrow>
          (case translateFields dec src description src [] of
             Inl ret \<Rightarrow> ret
           | Inr result \<Rightarrow>
               (case insertMissing src description result of
                  Inl ret \<Rightarrow> ret
                | Inr result' \<Rightarrow> (Some result', None))))"
| "translateFields dec src description [] result = Inr result"
| "translateFields dec src description ((attr, value) # fields) result =
     (case translateField dec src description attr value result of
        Inl ret \<Rightarrow> Inl ret
      | Inr result' \<Rightarrow> translateFields dec src description fields result')"
| "translateField dec src description attr value result =
     (case map_of description attr of
        None \<Rightarrow> Inr result
      | Some md \<Rightarrow>
          if isString md then
            (case StringMap value of
               (dstStr, Some err) \<Rightarrow> Inl (Some result, Some (NewInvalidProp attr (Error err)))
             | (dstStr, None) \<Rightarrow> Inr (AList.update (str md) dstStr result))
          else if \<not> isDescription md
            then Inl (None, Some (NewInternalError ''%v is not a Description''))
          else
            (case Type md of
               CustomTranslation \<Rightarrow>
                 (case MapFunc md of
                    None \<Rightarrow> Inl (None, Some (NewInternalError (''missing translation func for '' @ attr)))
                  | Some f \<Rightarrow>
                      (case f value of
                         (dstStr, Some err) \<Rightarrow> Inl (None, Some (NewInvalidProp attr (Error err)))
                       | (dstStr, None) \<Rightarrow> Inr (AList.update (targetName md attr) dstStr result)))
             | MapTranslation \<Rightarrow>
                 (case value of
                    VMap srcMap \<Rightarrow>
                      (case Translate dec srcMap (SubTranslation md) of
                         (transl, Some err) \<Rightarrow> Inl (None, Some err)
                       | (transl, None) \<Rightarrow>
                           Inr (AList.update (targetName md attr) (VMap (mapValue transl)) result))
                  | _ \<Rightarrow> Inl (None, Some (NewInternalError ''invalid type for %v: %T'')))
             | MapArrayTranslation \<Rightarrow>
                 (case dec value of
                    Inl err \<Rightarrow> Inl (None, Some (NewInternalError (Error err)))
                  | Inr srcMaps \<Rightarrow>
                      (case translateMaps dec srcMaps (SubTranslation md) of
                         Inl err \<Rightarrow> Inl (None, Some err)
                       | Inr res \<Rightarrow> Inr (AList.update (targetName md attr) (VMapArray res) result)))
             | ModifyTranslation \<Rightarrow>
                 (case ModFunc md of
                    None \<Rightarrow> Inl (None, Some (NewInternalError (''missing translation func for '' @ attr)))
                  | Some f \<Rightarrow>
                      (case f src result value of
                         (result', Some err) \<Rightarrow> Inl (None, Some (NewInvalidProp attr (Error err)))
                       | (result', None) \<Rightarrow> Inr result'))
             | InsertTranslation \<Rightarrow> Inr result
             | InvalidTranslation _ \<Rightarrow> Inl (None, Some (NewInternalError ''Invalid Translation type''))))"
| "translateMaps dec [] sub = Inr []"
| "translateMaps dec (val # vals) sub =
     (case Translate dec val sub of
        (transl, Some err) \<Rightarrow> Inl err
      | (transl, None) \<Rightarrow>
          (case translateMaps dec vals sub of
             Inl err \<Rightarrow> Inl err
           | Inr res \<Rightarrow> Inr (mapValue transl # res)))"
  by pat_completeness auto

termination
proof -
  have sub: "subSize (SubTranslation md) < subSize (Some description)"
    if "map_of description attr = Some md" "isDescription md"
    for description :: Description and attr md
  proof -
    from that(1) have "(attr, md) \<in> set description" by (rule map_of_SomeD)
    then have "size md \<le> size_list (size_prod (\<lambda>_. 0) size) description"
      by (induction description) auto
    moreover from that(2) have "subSize (SubTranslation md) < size md"
      by (cases md) (auto simp: subSize_def)
    ultimately show ?thesis by (simp add: subSize_def)
  qed
  show ?thesis
    by (relation "inv_image (less_than <*lex*> less_than <*lex*> less_than)
          (\<lambda>x. case x of
             Inl (Inl (dec, src, d)) \<Rightarrow> (subSize d, 2::nat, 0::nat)
           | Inl (Inr (dec, src, description, fields, result)) \<Rightarrow>
               (subSize (Some description), 1, length fields)
           | Inr (Inl (dec, src, description, attr, v, result)) \<Rightarrow>
               (subSize (Some description), 0, 0)
           | Inr (Inr (dec, vals, sub)) \<Rightarrow> (subSize sub, 3, length vals))")
       (auto simp: sub)
qed

declare translateField.simps [simp del]

section \<open>IsSimilar\<close>

text \<open>\<^verbatim>\<open>descr[k]\<close>, where \<^verbatim>\<open>descr\<close> may be the \<^verbatim>\<open>nil\<close> map, in which no key is found.\<close>

definition lookupDescr :: "Description option \<Rightarrow> string \<Rightarrow> Descr option" where
  "lookupDescr descr k = (case descr of None \<Rightarrow> None | Some d \<Rightarrow> map_of d k)"

text \<open>
  \<^verbatim>\<open>IsSimilar\<close> is one loop over \<^verbatim>\<open>src\<close>, and \<open>similarField\<close> is the body of that loop:
  it either returns from \<^verbatim>\<open>IsSimilar\<close> (\<open>Inl\<close> of what is returned) or goes on to the next
  field (\<open>Inr\<close>). The body reads \<^verbatim>\<open>dst\<close> and \<^verbatim>\<open>descr\<close> only, so \<open>IsSimilar\<close> recurses on
  the fields of \<^verbatim>\<open>src\<close> that are still to visit. \<open>similarMaps\<close> is the inner loop of the
  \<^verbatim>\<open>MapArrayTranslation\<close> case; it runs after the test that \<^verbatim>\<open>srcMaps\<close> and \<^verbatim>\<open>dstMaps\<close>
  have the same length, so \<^verbatim>\<open>dstMaps[i]\<close> is in range and the loop visits
  \<open>zip srcMaps dstMaps\<close>.
\<close>

function IsSimilar :: "Decode \<Rightarrow> Record \<Rightarrow> Record \<Rightarrow> Description option \<Rightarrow> bool \<times> error option"
  and similarField ::
    "Decode \<Rightarrow> string \<Rightarrow> Value \<Rightarrow> Record \<Rightarrow> Description option \<Rightarrow> (bool \<times> error option) + unit"
  and similarMaps ::
    "Decode \<Rightarrow> (Record \<times> Record) list \<Rightarrow> Description option \<Rightarrow> bool \<times> error option"
where
  "IsSimilar dec [] dst descr = (True, None)"
| "IsSimilar dec ((k, vSrc) # src) dst descr =
     (case similarField dec k vSrc dst descr of
        Inl ret \<Rightarrow> ret
      | Inr _ \<Rightarrow> IsSimilar dec src dst descr)"
| "similarField dec k vSrc dst descr =
     (case lookupDescr descr k of
        None \<Rightarrow> Inr ()
      | Some md \<Rightarrow>
          if isString md then
            (case vSrc of
               VString srcStr \<Rightarrow>
                 (case map_of dst (str md) of
                    Some (VString dstStr) \<Rightarrow>
                      if srcStr \<noteq> dstStr
                      then Inl (False, Some (errorString
                                  (''Values %s and %s don'' @ [CHR 0x27] @ ''t match'')))
                      else Inr ()
                  | _ \<Rightarrow> Inl (False, Some (NewInternalError ''Missing value for %s'')))
             | _ \<Rightarrow> Inl (False, Some (NewInternalError ''Invalid description value %v'')))
          else if \<not> isDescription md
            then Inl (False, Some (NewInternalError ''invalid description %v''))
          else
            (case Type md of
               MapTranslation \<Rightarrow>
                 (case vSrc of
                    VMap srcMap \<Rightarrow>
                      (case map_of dst (TargetName md) of
                         None \<Rightarrow> Inl (False, Some (errorString ''Missing value for %s in %v''))
                       | Some dstMapVal \<Rightarrow>
                           (case dstMapVal of
                              VMap dstMap \<Rightarrow>
                                (case IsSimilar dec srcMap dstMap (SubTranslation md) of
                                   (r, err) \<Rightarrow> if \<not> r then Inl (False, err) else Inr ())
                            | _ \<Rightarrow> Inl (False, Some (errorString ''Invalid Type for %s: %T''))))
                  | _ \<Rightarrow> Inl (False, Some (errorString ''Invalid source object %v'')))
             | MapArrayTranslation \<Rightarrow>
                 (case dec vSrc of
                    Inl err \<Rightarrow> Inl (False, Some (errorString ''Invalid source object %v: %v''))
                  | Inr srcMaps \<Rightarrow>
                      (case map_of dst (TargetName md) of
                         None \<Rightarrow> Inl (False, Some (errorString ''Missing value for %s in %v''))
                       | Some dstVal \<Rightarrow>
                           (case dec dstVal of
                              Inl e2 \<Rightarrow>
                                Inl (False, Some (errorString ''Invalid destination object %v''))
                            | Inr dstMaps \<Rightarrow>
                                if length srcMaps \<noteq> length dstMaps
                                then Inl (False, Some (errorString
                                            ''Source and destination length: %d!= %d''))
                                else
                                  (case similarMaps dec (zip srcMaps dstMaps) (SubTranslation md) of
                                     (r, err) \<Rightarrow> if \<not> r then Inl (False, err) else Inr ()))))
             | _ \<Rightarrow> Inl (False, Some (errorString ''Unsupported translation type %v''))))"
| "similarMaps dec [] sub = (True, None)"
| "similarMaps dec ((val, dstMap) # pairs) sub =
     (case IsSimilar dec val dstMap sub of
        (r, err) \<Rightarrow> if \<not> r then (False, err) else similarMaps dec pairs sub)"
  by pat_completeness auto
termination
proof -
  have sub: "subSize (SubTranslation md) < subSize descr"
    if "lookupDescr descr k = Some md" "isDescription md"
    for descr :: "Description option" and k md
  proof -
    from that(1) obtain description where d: "descr = Some description"
      and "map_of description k = Some md"
      by (auto simp: lookupDescr_def split: option.splits)
    then have "(k, md) \<in> set description" by (simp add: map_of_SomeD)
    then have "size md \<le> size_list (size_prod (\<lambda>_. 0) size) description"
      by (induction description) auto
    moreover from that(2) have "subSize (SubTranslation md) < size md"
      by (cases md) (auto simp: subSize_def)
    ultimately show ?thesis by (simp add: subSize_def d)
  qed
  show ?thesis
    by (relation "inv_image (less_than <*lex*> less_than <*lex*> less_than)
          (\<lambda>x. case x of
             Inl (dec, src, dst, descr) \<Rightarrow> (subSize descr, 1::nat, length src)
           | Inr (Inl (dec, k, vSrc, dst, descr)) \<Rightarrow> (subSize descr, 0, 0)
           | Inr (Inr (dec, pairs, sub)) \<Rightarrow> (subSize sub, 2, length pairs))")
       (auto simp: sub)
qed

declare similarField.simps [simp del]

section \<open>Notions of the specification\<close>

text \<open>
  The canonical hyphenated form of a UUID: 36 characters, hexadecimal digits in groups
  of 8, 4, 4, 4 and 12 with a hyphen between two groups.
\<close>

definition canonicalUUID :: "string \<Rightarrow> bool" where
  "canonicalUUID u =
     (length u = 36 \<and>
      list_all isHexDigit (take 8 u) \<and> u ! 8 = CHR ''-'' \<and>
      list_all isHexDigit (take 4 (drop 9 u)) \<and> u ! 13 = CHR ''-'' \<and>
      list_all isHexDigit (take 4 (drop 14 u)) \<and> u ! 18 = CHR ''-'' \<and>
      list_all isHexDigit (take 4 (drop 19 u)) \<and> u ! 23 = CHR ''-'' \<and>
      list_all isHexDigit (drop 24 u))"

text \<open>
  A decoder to run the functions on concrete inputs: it accepts a slice of maps, typed
  or untyped, and nothing else.
\<close>

fun allMaps :: "Value list \<Rightarrow> Record list option" where
  "allMaps [] = Some []"
| "allMaps (VMap m # vs) = (case allMaps vs of None \<Rightarrow> None | Some ms \<Rightarrow> Some (m # ms))"
| "allMaps (_ # vs) = None"

definition sliceOfMaps :: Decode where
  "sliceOfMaps v =
     (case v of
        VMapArray ms \<Rightarrow> Inr ms
      | VArray vs \<Rightarrow>
          (case allMaps vs of
             None \<Rightarrow> Inl (errorString ''expected a map'')
           | Some ms \<Rightarrow> Inr ms)
      | _ \<Rightarrow> Inl (errorString ''expected a slice''))"

text \<open>
  The name under which the second loop of \<^verbatim>\<open>Translate\<close> stores the field \<open>attr\<close> for the
  description entry \<open>md\<close>: the string itself, or the resolved target name.
\<close>

definition fieldTarget :: "Descr \<Rightarrow> string \<Rightarrow> string" where
  "fieldTarget md attr = (if isString md then str md else targetName md attr)"

text \<open>
  A description without \<^verbatim>\<open>ModifyTranslation\<close> and \<^verbatim>\<open>InsertTranslation\<close> entries, the two
  kinds whose functions receive the whole source map.
\<close>

definition noModifyInsert :: "Description \<Rightarrow> bool" where
  "noModifyInsert description =
     list_all (\<lambda>(attr, md). isDescription md \<longrightarrow>
                 Type md \<noteq> ModifyTranslation \<and> Type md \<noteq> InsertTranslation) description"

text \<open>A description without \<^verbatim>\<open>InsertTranslation\<close> entries.\<close>

definition noInsert :: "Description \<Rightarrow> bool" where
  "noInsert description =
     list_all (\<lambda>(attr, md). isDescription md \<longrightarrow> Type md \<noteq> InsertTranslation) description"






section \<open>The absent description\<close>

text \<open>
  C9. For every record \<open>r\<close>, \<^verbatim>\<open>Translate(r, nil)\<close> returns \<open>r\<close> itself and no error: a
  \<^verbatim>\<open>nil\<close> description means no translation.
\<close>

theorem Translate_nil_description: "Translate dec r None = (Some r, None)"
  by simp

text \<open>
  C10. For every source and every candidate result, \<^verbatim>\<open>IsSimilar(src, dst, nil)\<close> returns
  \<^verbatim>\<open>true\<close> and no error: no key of the source is found in the \<^verbatim>\<open>nil\<close> description, so
  every field is skipped.
\<close>

theorem IsSimilar_nil_description: "IsSimilar dec src dst None = (True, None)"
proof (induction src)
  case Nil
  show ?case by simp
next
  case (Cons field src)
  obtain k vSrc where "field = (k, vSrc)" by (cases field)
  with Cons show ?case by (simp add: similarField.simps lookupDescr_def)
qed

section \<open>The UUID mapper\<close>

text \<open>The regular expression matches exactly the strings that start with a canonical UUID.\<close>

lemma hexRun_append:
  "length h = n \<Longrightarrow> list_all isHexDigit h \<Longrightarrow> hexRun n (h @ r) = Some r"
  by (induction n "h @ r" arbitrary: h rule: hexRun.induct) (auto simp: length_Suc_conv)

lemma hexRun_Some:
  "hexRun n s = Some r \<Longrightarrow> \<exists>h. s = h @ r \<and> length h = n \<and> list_all isHexDigit h"
proof (induction n s rule: hexRun.induct)
  case (1 s)
  then show ?case by simp
next
  case (2 n)
  then show ?case by simp
next
  case (3 n c s)
  then obtain h where "s = h @ r" "length h = n" "list_all isHexDigit h" and "isHexDigit c"
    by (auto split: if_splits)
  then have "c # s = (c # h) @ r \<and> length (c # h) = Suc n \<and> list_all isHexDigit (c # h)"
    by simp
  then show ?case by blast
qed

lemma dash_Some: "dash s = Some r \<longleftrightarrow> s = CHR ''-'' # r"
  by (cases s) auto

lemma canonical_split:
  assumes "canonicalUUID u"
  shows "\<exists>g1 g2 g3 g4 g5. u = g1 @ CHR ''-'' # g2 @ CHR ''-'' # g3 @ CHR ''-'' # g4 @ CHR ''-'' # g5
    \<and> length g1 = 8 \<and> length g2 = 4 \<and> length g3 = 4 \<and> length g4 = 4 \<and> length g5 = 12
    \<and> list_all isHexDigit g1 \<and> list_all isHexDigit g2 \<and> list_all isHexDigit g3
    \<and> list_all isHexDigit g4 \<and> list_all isHexDigit g5"
proof -
  from assms have len: "length u = 36" by (simp add: canonicalUUID_def)
  have s1: "u = take 8 u @ u ! 8 # drop 9 u"
    using id_take_nth_drop [of 8 u] len by simp
  have s2: "drop 9 u = take 4 (drop 9 u) @ u ! 13 # drop 14 u"
    using id_take_nth_drop [of 4 "drop 9 u"] len by simp
  have s3: "drop 14 u = take 4 (drop 14 u) @ u ! 18 # drop 19 u"
    using id_take_nth_drop [of 4 "drop 14 u"] len by simp
  have s4: "drop 19 u = take 4 (drop 19 u) @ u ! 23 # drop 24 u"
    using id_take_nth_drop [of 4 "drop 19 u"] len by simp
  have "u = take 8 u @ CHR ''-'' # take 4 (drop 9 u) @ CHR ''-'' # take 4 (drop 14 u)
      @ CHR ''-'' # take 4 (drop 19 u) @ CHR ''-'' # drop 24 u"
    using s1 s2 s3 s4 assms by (metis canonicalUUID_def)
  moreover have "length (take 8 u) = 8" "length (take 4 (drop 9 u)) = 4"
    "length (take 4 (drop 14 u)) = 4" "length (take 4 (drop 19 u)) = 4" "length (drop 24 u) = 12"
    using len by simp_all
  ultimately show ?thesis using assms unfolding canonicalUUID_def by blast
qed

lemma validUUID_groups:
  assumes "length g1 = 8" "length g2 = 4" "length g3 = 4" "length g4 = 4" "length g5 = 12"
    "list_all isHexDigit g1" "list_all isHexDigit g2" "list_all isHexDigit g3"
    "list_all isHexDigit g4" "list_all isHexDigit g5"
  shows "validUUID ((g1 @ CHR ''-'' # g2 @ CHR ''-'' # g3 @ CHR ''-'' # g4 @ CHR ''-'' # g5) @ rest)"
proof -
  have "hexRun 12 (g5 @ rest) = Some rest" using assms by (simp add: hexRun_append)
  moreover have "hexRun 4 (g4 @ CHR ''-'' # g5 @ rest) = Some (CHR ''-'' # g5 @ rest)"
    using assms by (simp add: hexRun_append)
  moreover have "hexRun 4 (g3 @ CHR ''-'' # g4 @ CHR ''-'' # g5 @ rest) = Some (CHR ''-'' # g4 @ CHR ''-'' # g5 @ rest)"
    using assms by (simp add: hexRun_append)
  moreover have "hexRun 4 (g2 @ CHR ''-'' # g3 @ CHR ''-'' # g4 @ CHR ''-'' # g5 @ rest) = Some (CHR ''-'' # g3 @ CHR ''-'' # g4 @ CHR ''-'' # g5 @ rest)"
    using assms by (simp add: hexRun_append)
  moreover have "hexRun 8 (g1 @ CHR ''-'' # g2 @ CHR ''-'' # g3 @ CHR ''-'' # g4 @ CHR ''-'' # g5 @ rest) = Some (CHR ''-'' # g2 @ CHR ''-'' # g3 @ CHR ''-'' # g4 @ CHR ''-'' # g5 @ rest)"
    using assms by (simp add: hexRun_append)
  ultimately show ?thesis by (simp add: validUUID_def)
qed

lemma validUUID_prefix: "canonicalUUID u \<Longrightarrow> validUUID (u @ rest)"
  using canonical_split [of u] validUUID_groups by blast

lemma validUUID_imp_prefix:
  assumes "validUUID s"
  shows "\<exists>u rest. s = u @ rest \<and> canonicalUUID u"
proof -
  from assms obtain r1 r2 r3 r4 r5 r6 r7 r8 r9 where
    "hexRun 8 s = Some r1" "dash r1 = Some r2" "hexRun 4 r2 = Some r3" "dash r3 = Some r4"
    "hexRun 4 r4 = Some r5" "dash r5 = Some r6" "hexRun 4 r6 = Some r7" "dash r7 = Some r8"
    "hexRun 12 r8 = Some r9"
    unfolding validUUID_def by (auto simp: bind_eq_Some_conv)
  then obtain g1 g2 g3 g4 g5 where
    s: "s = (g1 @ CHR ''-'' # g2 @ CHR ''-'' # g3 @ CHR ''-'' # g4 @ CHR ''-'' # g5) @ r9"
    and l: "length g1 = 8" "length g2 = 4" "length g3 = 4" "length g4 = 4" "length g5 = 12"
    and h: "list_all isHexDigit g1" "list_all isHexDigit g2" "list_all isHexDigit g3"
      "list_all isHexDigit g4" "list_all isHexDigit g5"
    by (fastforce simp: dash_Some dest!: hexRun_Some)
  have "canonicalUUID (g1 @ CHR ''-'' # g2 @ CHR ''-'' # g3 @ CHR ''-'' # g4 @ CHR ''-'' # g5)"
    using l h by (simp add: canonicalUUID_def nth_append)
  with s show ?thesis by blast
qed

text \<open>
  C8. \<^verbatim>\<open>UUIDMap\<close> succeeds on every string whose trimmed value starts with a canonical
  8-4-4-4-12 hyphenated hexadecimal UUID, whatever follows it, and returns the trimmed
  string; it fails on the truncated \<^verbatim>\<open>"cb89a4a9-7a7e-59ea-a0f2"\<close> and on every value that
  is not a string.
\<close>

theorem UUIDMap_prefix_match:
  "((\<exists>u rest. TrimSpace srcStr = u @ rest \<and> canonicalUUID u) \<longrightarrow>
      UUIDMap (VString srcStr) = (VString (TrimSpace srcStr), None))
   \<and> (\<exists>err. UUIDMap (VString ''cb89a4a9-7a7e-59ea-a0f2'') = (VString [], Some err))
   \<and> ((\<forall>s. v \<noteq> VString s) \<longrightarrow> (\<exists>err. UUIDMap v = (VString [], Some err)))"
proof (intro conjI impI)
  assume "\<exists>u rest. TrimSpace srcStr = u @ rest \<and> canonicalUUID u"
  then have "validUUID (TrimSpace srcStr)" by (auto simp: validUUID_prefix)
  then show "UUIDMap (VString srcStr) = (VString (TrimSpace srcStr), None)"
    by (simp add: UUIDMap_def)
next
  have "UUIDMap (VString ''cb89a4a9-7a7e-59ea-a0f2'') = (VString [], Some (errorString ''%v is not a valid UUID''))"
    by code_simp
  then show "\<exists>err. UUIDMap (VString ''cb89a4a9-7a7e-59ea-a0f2'') = (VString [], Some err)"
    by blast
next
  assume "\<forall>s. v \<noteq> VString s"
  then show "\<exists>err. UUIDMap v = (VString [], Some err)"
    by (cases v) (auto simp: UUIDMap_def)
qed

text \<open>
  The theorem at a padded UUID followed by other characters, and at an integer.
\<close>

theorem UUIDMap_prefix_match_witness:
  "UUIDMap (VString '' fc62e0eb-7969-5c24-b83f-955bf7f4ad0b-trailing  '')
     = (VString ''fc62e0eb-7969-5c24-b83f-955bf7f4ad0b-trailing'', None)
   \<and> (\<exists>err. UUIDMap (VInt 7) = (VString [], Some err))"
proof -
  have t: "TrimSpace '' fc62e0eb-7969-5c24-b83f-955bf7f4ad0b-trailing  ''
      = ''fc62e0eb-7969-5c24-b83f-955bf7f4ad0b'' @ ''-trailing''"
    by code_simp
  have c: "canonicalUUID ''fc62e0eb-7969-5c24-b83f-955bf7f4ad0b''"
    by code_simp
  have n: "\<forall>s. VInt 7 \<noteq> VString s" by simp
  from t c have "\<exists>u rest. TrimSpace '' fc62e0eb-7969-5c24-b83f-955bf7f4ad0b-trailing  '' = u @ rest
      \<and> canonicalUUID u" by blast
  with n UUIDMap_prefix_match [of "'' fc62e0eb-7969-5c24-b83f-955bf7f4ad0b-trailing  ''" "VInt 7"] t
  show ?thesis by simp
qed

section \<open>Errors and results\<close>

text \<open>
  C4. Whenever \<^verbatim>\<open>Translate\<close> returns an error, it returns no result with it. The code
  does so on every path but one: where \<^verbatim>\<open>StringMap\<close> rejects the value of a field
  described by a string, \<^verbatim>\<open>Translate\<close> returns the \<^verbatim>\<open>result\<close> map built so far together with
  the error. Below, the field \<^verbatim>\<open>B\<close> holds an integer: described by a string, the call
  returns the map holding \<^verbatim>\<open>a\<close> and the error; described by a \<^verbatim>\<open>Description\<close> with
  \<^verbatim>\<open>StringMap\<close>, it returns \<^verbatim>\<open>nil\<close> and the same error.
\<close>

theorem Translate_rename_error_returns_result:
  "Translate dec [(''A'', VString ''x''), (''B'', VInt 1)] (Some [(''A'', DString ''a''), (''B'', DString ''b'')])
     = (Some [(''a'', VString ''x'')], Some (InvalidPropertyError ''B'' ''invalid type %T for %v''))
   \<and> Translate dec [(''A'', VString ''x''), (''B'', VInt 1)]
        (Some [(''A'', DString ''a''),
               (''B'', DDescription None False (Some StringMap) None None ''b'' CustomTranslation)])
     = (None, Some (InvalidPropertyError ''B'' ''invalid type %T for %v''))"
proof -
  have t: "TrimSpace ''x'' = ''x''" by code_simp
  show ?thesis
    by (simp add: translateField.simps StringMap_def NewInvalidProp_def t targetName_def)
qed

section \<open>The target name\<close>

text \<open>
  C6. An empty \<^verbatim>\<open>TargetName\<close> stands for the name of the source field, in
  \<^verbatim>\<open>Translate\<close> and in \<^verbatim>\<open>IsSimilar\<close> alike. The second loop of \<^verbatim>\<open>Translate\<close> does replace
  the empty name, \<^verbatim>\<open>IsSimilar\<close> does not: for a \<^verbatim>\<open>MapTranslation\<close> of the field \<^verbatim>\<open>E\<close>
  with an empty \<^verbatim>\<open>TargetName\<close>, \<^verbatim>\<open>Translate\<close> stores the translated map under \<^verbatim>\<open>E\<close>, and
  \<^verbatim>\<open>IsSimilar\<close> on the source, that result and the same description looks under the empty
  key and reports a missing value; with \<^verbatim>\<open>TargetName\<close> set to \<^verbatim>\<open>E\<close> it accepts.
\<close>

theorem IsSimilar_empty_TargetName:
  "Translate dec [(''E'', VMap [(''x'', VString ''1'')])]
      (Some [(''E'', DDescription None False None None (Some [(''x'', DString ''x'')]) [] MapTranslation)])
     = (Some [(''E'', VMap [(''x'', VString ''1'')])], None)
   \<and> IsSimilar dec [(''E'', VMap [(''x'', VString ''1'')])] [(''E'', VMap [(''x'', VString ''1'')])]
      (Some [(''E'', DDescription None False None None (Some [(''x'', DString ''x'')]) [] MapTranslation)])
     = (False, Some (errorString ''Missing value for %s in %v''))
   \<and> IsSimilar dec [(''E'', VMap [(''x'', VString ''1'')])] [(''E'', VMap [(''x'', VString ''1'')])]
      (Some [(''E'', DDescription None False None None (Some [(''x'', DString ''x'')]) ''E'' MapTranslation)])
     = (True, None)"
proof -
  have t: "TrimSpace ''1'' = ''1''" by code_simp
  show ?thesis
    by (simp add: translateField.simps similarField.simps StringMap_def t targetName_def
        mapValue_def lookupDescr_def)
qed

section \<open>Mandatory fields\<close>

lemma checkMandatory_fails:
  assumes "(k, md) \<in> set description" "isDescription md" "Mandatory md" "map_of src k = None"
  shows "\<exists>err. checkMandatory src description = Some err"
  using assms by (induction description) auto

lemma checkMandatory_error:
  assumes "checkMandatory src description = Some err"
  shows "(\<exists>k md. (k, md) \<in> set description \<and> isDescription md \<and> Mandatory md
            \<and> map_of src k = None \<and> err = MissingAttributeError k)
       \<or> (\<exists>k v. (k, v) \<in> set description \<and> \<not> isString v \<and> \<not> isDescription v
            \<and> err = InternalError ''%v is not Description'')"
  using assms
proof (induction description)
  case Nil
  then show ?case by simp
next
  case (Cons e description)
  obtain k v where e: "e = (k, v)" by (cases e)
  show ?case
  proof (cases "checkMandatory src (e # description) = checkMandatory src description")
    case True
    with Cons have "(\<exists>k md. (k, md) \<in> set description \<and> isDescription md \<and> Mandatory md
            \<and> map_of src k = None \<and> err = MissingAttributeError k)
       \<or> (\<exists>k v. (k, v) \<in> set description \<and> \<not> isString v \<and> \<not> isDescription v
            \<and> err = InternalError ''%v is not Description'')" by simp
    then show ?thesis by auto
  next
    case False
    with Cons.prems e have "(isDescription v \<and> Mandatory v \<and> map_of src k = None
          \<and> err = MissingAttributeError k)
       \<or> (\<not> isString v \<and> \<not> isDescription v \<and> err = InternalError ''%v is not Description'')"
      by (auto simp: NewInternalError_def NewMissingAttributeError_def split: if_splits)
    with e show ?thesis by auto
  qed
qed

text \<open>
  C2, as stated, at a description with two mandatory fields \<^verbatim>\<open>A\<close> and \<^verbatim>\<open>B\<close> and an
  empty source: \<^verbatim>\<open>B\<close> is mandatory and absent, and the error names \<^verbatim>\<open>A\<close>, the field the
  check meets first.
\<close>

theorem Translate_mandatory_missing_counterexample:
  "(''B'', DDescription None True (Some StringMap) None None ''b'' CustomTranslation)
      \<in> set [(''A'', DDescription None True (Some StringMap) None None ''a'' CustomTranslation),
              (''B'', DDescription None True (Some StringMap) None None ''b'' CustomTranslation)]
   \<and> Mandatory (DDescription None True (Some StringMap) None None ''b'' CustomTranslation)
   \<and> map_of ([] :: Record) ''B'' = None
   \<and> Translate sliceOfMaps []
        (Some [(''A'', DDescription None True (Some StringMap) None None ''a'' CustomTranslation),
               (''B'', DDescription None True (Some StringMap) None None ''b'' CustomTranslation)])
       = (None, Some (MissingAttributeError ''A''))
   \<and> Translate sliceOfMaps []
        (Some [(''A'', DDescription None True (Some StringMap) None None ''a'' CustomTranslation),
               (''B'', DDescription None True (Some StringMap) None None ''b'' CustomTranslation)])
       \<noteq> (None, Some (MissingAttributeError ''B''))"
  by (simp add: NewMissingAttributeError_def)

text \<open>
  C2, amended. When a description holds a mandatory \<^verbatim>\<open>Description\<close> for a key that the
  source lacks, \<^verbatim>\<open>Translate\<close> fails in its first loop, before any field is translated, and
  returns no result. The error is the one of that loop: a \<^verbatim>\<open>MissingAttributeError\<close> naming
  a mandatory key that the source lacks, or an \<^verbatim>\<open>InternalError\<close> for an entry that is
  neither a string nor a \<^verbatim>\<open>Description\<close>. It names the key itself when every entry is a
  string or a \<^verbatim>\<open>Description\<close> and no other mandatory key is absent.
\<close>

theorem Translate_mandatory_missing:
  assumes "(k, md) \<in> set description" "isDescription md" "Mandatory md" "map_of src k = None"
  shows "\<exists>err. Translate dec src (Some description) = (None, Some err)
      \<and> checkMandatory src description = Some err
      \<and> ((\<exists>k' md'. (k', md') \<in> set description \<and> isDescription md' \<and> Mandatory md'
              \<and> map_of src k' = None \<and> err = MissingAttributeError k')
          \<or> (\<exists>k' v. (k', v) \<in> set description \<and> \<not> isString v \<and> \<not> isDescription v
              \<and> err = InternalError ''%v is not Description''))
      \<and> ((\<forall>k' v. (k', v) \<in> set description \<longrightarrow>
              (isString v \<or> isDescription v)
              \<and> (isDescription v \<and> Mandatory v \<and> map_of src k' = None \<longrightarrow> k' = k))
           \<longrightarrow> err = MissingAttributeError k)"
proof -
  from assms obtain err where err: "checkMandatory src description = Some err"
    using checkMandatory_fails by blast
  then have t: "Translate dec src (Some description) = (None, Some err)" by simp
  note c = checkMandatory_error [OF err]
  have "err = MissingAttributeError k"
    if "\<forall>k' v. (k', v) \<in> set description \<longrightarrow>
              (isString v \<or> isDescription v)
              \<and> (isDescription v \<and> Mandatory v \<and> map_of src k' = None \<longrightarrow> k' = k)"
    using c that by blast
  with err t c show ?thesis by blast
qed

text \<open>The theorem at the description and source of \<^verbatim>\<open>TestMandatoryOption\<close>.\<close>

theorem Translate_mandatory_missing_witness:
  "(''A1'', DDescription None True (Some StringMap) None None ''a1'' CustomTranslation)
      \<in> set [(''X'', DString ''Y''),
              (''A1'', DDescription None True (Some StringMap) None None ''a1'' CustomTranslation)]
   \<and> map_of [(''X'', VString ''X'')] ''A1'' = None
   \<and> Translate sliceOfMaps [(''X'', VString ''X'')]
        (Some [(''X'', DString ''Y''),
               (''A1'', DDescription None True (Some StringMap) None None ''a1'' CustomTranslation)])
       = (None, Some (MissingAttributeError ''A1''))"
proof -
  let ?md = "DDescription None True (Some StringMap) None None ''a1'' CustomTranslation"
  let ?d = "[(''X'', DString ''Y''), (''A1'', ?md)]"
  let ?src = "[(''X'', VString ''X'')]"
  have h1: "(''A1'', ?md) \<in> set ?d" by simp
  have h2: "isDescription ?md" by simp
  have h3: "Mandatory ?md" by simp
  have h4: "map_of ?src ''A1'' = None" by simp
  have only: "\<forall>k' v. (k', v) \<in> set ?d \<longrightarrow>
      (isString v \<or> isDescription v)
      \<and> (isDescription v \<and> Mandatory v \<and> map_of ?src k' = None \<longrightarrow> k' = ''A1'')"
    by auto
  from Translate_mandatory_missing [OF h1 h2 h3 h4, of sliceOfMaps] only
  have "Translate sliceOfMaps ?src (Some ?d) = (None, Some (MissingAttributeError ''A1''))"
    by blast
  with h1 h4 show ?thesis by blast
qed

section \<open>The loops of Translate\<close>

text \<open>
  A loop over a list of fields runs over its first part, then over the rest; a loop that
  leaves \<^verbatim>\<open>Translate\<close> does so with an error; a successful call went through all three
  loops.
\<close>

lemma translateField_unknown:
  "map_of description attr = None \<Longrightarrow>
   translateField dec src description attr v result = Inr result"
  by (simp add: translateField.simps)

lemma translateFields_append:
  "translateFields dec src description (pre @ post) result =
     (case translateFields dec src description pre result of
        Inl ret \<Rightarrow> Inl ret
      | Inr result' \<Rightarrow> translateFields dec src description post result')"
proof (induction pre arbitrary: result)
  case Nil
  show ?case by simp
next
  case (Cons field pre)
  obtain attr v where "field = (attr, v)" by (cases field)
  with Cons show ?case by (simp split: sum.splits)
qed

lemma translateFields_skip:
  assumes "map_of description k = None"
  shows "translateFields dec src description (pre @ (k, v) # post) result =
         translateFields dec src description (pre @ post) result"
  using assms
  by (simp add: translateFields_append [of _ _ _ pre] translateField_unknown split: sum.splits)

lemma noModifyInsert_lookup:
  assumes "noModifyInsert description" "map_of description attr = Some md" "isDescription md"
  shows "Type md \<noteq> ModifyTranslation \<and> Type md \<noteq> InsertTranslation"
proof -
  from assms(2) have "(attr, md) \<in> set description" by (rule map_of_SomeD)
  with assms(1,3) show ?thesis by (auto simp: noModifyInsert_def list_all_iff)
qed

lemma translateField_source:
  assumes "noModifyInsert description"
  shows "translateField dec src description attr v result =
         translateField dec src' description attr v result"
proof (cases "map_of description attr")
  case None
  then show ?thesis by (simp add: translateField.simps)
next
  case (Some md)
  show ?thesis
  proof (cases "isDescription md")
    case True
    with assms Some have "Type md \<noteq> ModifyTranslation"
      using noModifyInsert_lookup by blast
    with Some show ?thesis
      by (simp add: translateField.simps split: TranslationType.splits)
  next
    case False
    with Some show ?thesis by (simp add: translateField.simps)
  qed
qed

lemma translateFields_source:
  assumes "noModifyInsert description"
  shows "translateFields dec src description fields result =
         translateFields dec src' description fields result"
proof (induction fields arbitrary: result)
  case Nil
  show ?case by simp
next
  case (Cons field fields)
  obtain attr v where "field = (attr, v)" by (cases field)
  with Cons translateField_source [OF assms, of dec src attr v _ src'] show ?case
    by (simp split: sum.splits)
qed

lemma map_of_skip:
  "k' \<noteq> k \<Longrightarrow> map_of (pre @ (k, v) # post) k' = map_of (pre @ post) k'"
  by (simp add: map_add_def split: option.splits)

lemma checkMandatory_skip:
  assumes "k \<notin> fst ` set description"
  shows "checkMandatory (pre @ (k, v) # post) description = checkMandatory (pre @ post) description"
  using assms
proof (induction description)
  case Nil
  show ?case by simp
next
  case (Cons e description)
  obtain k' md where e: "e = (k', md)" by (cases e)
  with Cons.prems have "k' \<noteq> k" by auto
  then have "map_of (pre @ (k, v) # post) k' = map_of (pre @ post) k'" by (rule map_of_skip)
  with Cons e show ?case by simp
qed

lemma insertMissing_source:
  assumes "noModifyInsert description"
  shows "insertMissing src description result = insertMissing src' description result"
  using assms
proof (induction description)
  case Nil
  show ?case by simp
next
  case (Cons e description)
  obtain k md where "e = (k, md)" by (cases e)
  with Cons show ?case by (auto simp: noModifyInsert_def)
qed

lemma insertMissing_noInsert_result:
  assumes "noModifyInsert description" "insertMissing src description result = Inr result'"
  shows "result' = result"
  using assms
proof (induction description)
  case Nil
  then show ?case by simp
next
  case (Cons e description)
  obtain k md where "e = (k, md)" by (cases e)
  with Cons show ?case by (auto simp: noModifyInsert_def split: if_splits)
qed

lemma translateField_keys:
  assumes "noModifyInsert description"
    and "translateField dec src description attr v result = Inr result'"
    and "k \<in> fst ` set result'"
  shows "k \<in> fst ` set result
       \<or> (\<exists>md. map_of description attr = Some md \<and> k = fieldTarget md attr)"
proof (cases "map_of description attr")
  case None
  with assms show ?thesis by (simp add: translateField.simps)
next
  case (Some md)
  have upd: "k \<in> fst ` set result \<or> k = t" if "result' = AList.update t x result" for t x
    using assms(3) that by (auto simp: dom_update)
  show ?thesis
  proof (cases "isDescription md")
    case True
    with assms(1) Some have ty: "Type md \<noteq> ModifyTranslation"
      using noModifyInsert_lookup by blast
    from True have ns: "\<not> isString md" by (cases md) auto
    from assms(2) Some True ns ty
    have "result' = result \<or> (\<exists>x. result' = AList.update (targetName md attr) x result)"
      by (auto simp: translateField.simps
          split: TranslationType.splits option.splits prod.splits Value.splits sum.splits)
    with upd assms(3) Some ns show ?thesis by (auto simp: fieldTarget_def)
  next
    case False
    with assms(2) Some
    have "isString md \<and> (\<exists>x. result' = AList.update (str md) x result)"
      by (auto simp: translateField.simps split: if_splits option.splits prod.splits)
    with upd Some show ?thesis by (auto simp: fieldTarget_def)
  qed
qed

lemma translateFields_keys:
  assumes "noModifyInsert description"
    and "translateFields dec src description fields result = Inr result'"
    and "k \<in> fst ` set result'"
  shows "k \<in> fst ` set result
       \<or> (\<exists>attr md. attr \<in> fst ` set fields \<and> map_of description attr = Some md
             \<and> k = fieldTarget md attr)"
  using assms(2,3)
proof (induction fields arbitrary: result)
  case Nil
  then show ?case by simp
next
  case (Cons field fields)
  obtain attr v where f: "field = (attr, v)" by (cases field)
  with Cons.prems(1) obtain r1 where
    r1: "translateField dec src description attr v result = Inr r1"
    and rest: "translateFields dec src description fields r1 = Inr result'"
    by (auto split: sum.splits)
  from Cons.IH [OF rest Cons.prems(2)]
  consider "k \<in> fst ` set r1"
    | "\<exists>attr md. attr \<in> fst ` set fields \<and> map_of description attr = Some md
         \<and> k = fieldTarget md attr"
    by blast
  then show ?case
  proof cases
    case 1
    from translateField_keys [OF assms(1) r1 1] f show ?thesis by auto
  next
    case 2
    with f show ?thesis by auto
  qed
qed

lemma translateField_Inl_error:
  "translateField dec src description attr v result = Inl ret \<Longrightarrow> snd ret \<noteq> None"
  by (auto simp: translateField.simps
      split: option.splits if_splits prod.splits TranslationType.splits Value.splits sum.splits)

lemma translateFields_Inl_error:
  "translateFields dec src description fields result = Inl ret \<Longrightarrow> snd ret \<noteq> None"
proof (induction fields arbitrary: result)
  case Nil
  then show ?case by simp
next
  case (Cons field fields)
  obtain attr v where "field = (attr, v)" by (cases field)
  with Cons show ?case
    by (auto split: sum.splits dest: translateField_Inl_error)
qed

lemma insertMissing_Inl_error:
  "insertMissing src description result = Inl ret \<Longrightarrow> snd ret \<noteq> None"
proof (induction description arbitrary: result)
  case Nil
  then show ?case by simp
next
  case (Cons e description)
  obtain attr md where "e = (attr, md)" by (cases e)
  with Cons show ?case
    by (auto split: if_splits option.splits prod.splits)
qed

lemma Translate_success:
  assumes "Translate dec src (Some description) = (r, None)"
  shows "\<exists>result. checkMandatory src description = None
           \<and> translateFields dec src description src [] = Inr result
           \<and> insertMissing src description result = Inr (mapValue r) \<and> r = Some (mapValue r)"
proof -
  from assms have c: "checkMandatory src description = None"
    by (auto split: option.splits)
  from assms c obtain result where t: "translateFields dec src description src [] = Inr result"
    by (cases "translateFields dec src description src []")
       (auto dest: translateFields_Inl_error)
  from assms c t obtain result' where i: "insertMissing src description result = Inr result'"
    by (cases "insertMissing src description result") (auto dest: insertMissing_Inl_error)
  from assms c t i have "r = Some result'" by simp
  with c t i show ?thesis by (simp add: mapValue_def)
qed

section \<open>Fields without a description\<close>

text \<open>
  C7, as stated, at a \<^verbatim>\<open>ModifyTranslation\<close> for the field \<^verbatim>\<open>A\<close> whose function copies
  the source field \<^verbatim>\<open>C\<close> into the destination: \<^verbatim>\<open>C\<close> has no description, and the result
  holds \<^verbatim>\<open>C\<close> with its value.
\<close>

theorem Translate_unknown_field_counterexample:
  "map_of [(''A'', DDescription None False None
              (Some (\<lambda>src dst v. (case map_of src ''C'' of None \<Rightarrow> dst
                                   | Some c \<Rightarrow> AList.update ''C'' c dst, None)))
              None ''a'' ModifyTranslation)] ''C'' = None
   \<and> Translate sliceOfMaps [(''A'', VInt 1), (''C'', VInt 2)]
       (Some [(''A'', DDescription None False None
                (Some (\<lambda>src dst v. (case map_of src ''C'' of None \<Rightarrow> dst
                                     | Some c \<Rightarrow> AList.update ''C'' c dst, None)))
                None ''a'' ModifyTranslation)])
     = (Some [(''C'', VInt 2)], None)"
  by (simp add: translateField.simps)

text \<open>
  C7, amended. A field of the source whose key has no description is skipped by the
  second loop of \<^verbatim>\<open>Translate\<close>: its step raises no error and leaves the result as it is,
  so the loop runs as it does without the field. When no entry of the description is a
  \<^verbatim>\<open>ModifyTranslation\<close> or an \<^verbatim>\<open>InsertTranslation\<close>, the whole call returns what it returns on
  the source without the field, and the key is in the result only where it is the target
  name of the description of another field of the source.
\<close>

theorem Translate_unknown_field:
  assumes "map_of description k = None"
  shows "translateField dec src description k v result = Inr result
     \<and> translateFields dec src description (pre @ (k, v) # post) result
         = translateFields dec src description (pre @ post) result
     \<and> (noModifyInsert description \<longrightarrow>
          Translate dec (pre @ (k, v) # post) (Some description)
            = Translate dec (pre @ post) (Some description)
          \<and> (\<forall>r. Translate dec (pre @ (k, v) # post) (Some description) = (Some r, None)
                  \<and> k \<in> fst ` set r \<longrightarrow>
                (\<exists>attr md. attr \<in> fst ` set (pre @ post) \<and> attr \<noteq> k
                   \<and> map_of description attr = Some md \<and> k = fieldTarget md attr)))"
proof (intro conjI impI allI)
  show "translateField dec src description k v result = Inr result"
    using assms by (rule translateField_unknown)
  show "translateFields dec src description (pre @ (k, v) # post) result
         = translateFields dec src description (pre @ post) result"
    using assms by (rule translateFields_skip)
next
  assume nmi: "noModifyInsert description"
  let ?src = "pre @ (k, v) # post" and ?src' = "pre @ post"
  from assms have "k \<notin> fst ` set description" by (simp add: map_of_eq_None_iff)
  then have c: "checkMandatory ?src description = checkMandatory ?src' description"
    by (rule checkMandatory_skip)
  have "translateFields dec ?src description ?src [] = translateFields dec ?src description ?src' []"
    using assms by (rule translateFields_skip)
  also have "\<dots> = translateFields dec ?src' description ?src' []"
    using nmi by (rule translateFields_source)
  finally have t: "translateFields dec ?src description ?src []
      = translateFields dec ?src' description ?src' []" .
  have i: "insertMissing ?src description r = insertMissing ?src' description r" for r
    using nmi by (rule insertMissing_source)
  show eq: "Translate dec ?src (Some description) = Translate dec ?src' (Some description)"
    unfolding Translate.simps c t i by (rule refl)
  fix r
  assume "Translate dec ?src (Some description) = (Some r, None) \<and> k \<in> fst ` set r"
  then have tr: "Translate dec ?src' (Some description) = (Some r, None)"
    and k: "k \<in> fst ` set r" using eq by simp_all
  from Translate_success [OF tr] obtain result where
    f: "translateFields dec ?src' description ?src' [] = Inr result"
    and "insertMissing ?src' description result = Inr r"
    by (auto simp: mapValue_def)
  with nmi have "r = result" using insertMissing_noInsert_result by blast
  with k have "k \<in> fst ` set result" by simp
  from translateFields_keys [OF nmi f this]
  have "\<exists>attr md. attr \<in> fst ` set ?src' \<and> map_of description attr = Some md
      \<and> k = fieldTarget md attr" by simp
  then obtain attr md where "attr \<in> fst ` set ?src'" "map_of description attr = Some md"
    "k = fieldTarget md attr" by blast
  moreover with assms have "attr \<noteq> k" by auto
  ultimately show "\<exists>attr md. attr \<in> fst ` set ?src' \<and> attr \<noteq> k
      \<and> map_of description attr = Some md \<and> k = fieldTarget md attr" by blast
qed

text \<open>
  The theorem at the description and source of \<^verbatim>\<open>TestMapMap\<close>, where \<^verbatim>\<open>C1\<close> has no
  description.
\<close>

theorem Translate_unknown_field_witness:
  "map_of [(''A1'', DString ''a1'')] ''C1'' = None
   \<and> Translate sliceOfMaps [(''A1'', VString ''foo''), (''C1'', VString ''missing'')]
        (Some [(''A1'', DString ''a1'')])
     = Translate sliceOfMaps [(''A1'', VString ''foo'')] (Some [(''A1'', DString ''a1'')])
   \<and> Translate sliceOfMaps [(''A1'', VString ''foo''), (''C1'', VString ''missing'')]
        (Some [(''A1'', DString ''a1'')])
     = (Some [(''a1'', VString ''foo'')], None)"
proof -
  have h: "map_of [(''A1'', DString ''a1'')] ''C1'' = None" by simp
  have n: "noModifyInsert [(''A1'', DString ''a1'')]" by (simp add: noModifyInsert_def)
  have t: "TrimSpace ''foo'' = ''foo''" by code_simp
  have e: "Translate sliceOfMaps [(''A1'', VString ''foo'')] (Some [(''A1'', DString ''a1'')])
     = (Some [(''a1'', VString ''foo'')], None)"
    by (simp add: translateField.simps StringMap_def t)
  from Translate_unknown_field [OF h, of sliceOfMaps "[]" "VString ''missing''" "[]"
      "[(''A1'', VString ''foo'')]" "[]"] n
  have "Translate sliceOfMaps [(''A1'', VString ''foo''), (''C1'', VString ''missing'')]
        (Some [(''A1'', DString ''a1'')])
     = Translate sliceOfMaps [(''A1'', VString ''foo'')] (Some [(''A1'', DString ''a1'')])"
    by simp
  with h e show ?thesis by simp
qed

section \<open>Arrays of maps\<close>

text \<open>
  The loop over \<^verbatim>\<open>srcMaps\<close> translates the elements in order: it fills \<^verbatim>\<open>res\<close> when every
  element translates, and leaves with the error of the first element that does not.
\<close>

lemma Translate_result:
  assumes "snd (Translate dec src sub) = None"
  shows "\<exists>r. Translate dec src sub = (Some r, None) \<and> mapValue (fst (Translate dec src sub)) = r"
proof (cases sub)
  case None
  then show ?thesis by (simp add: mapValue_def)
next
  case (Some description)
  obtain r where "Translate dec src (Some description) = (r, None)"
    using assms Some by (cases "Translate dec src (Some description)") simp
  from Translate_success [OF this] this Some show ?thesis by (auto simp: mapValue_def)
qed

lemma translateMaps_all:
  assumes "\<forall>i<length srcMaps. snd (Translate dec (srcMaps ! i) sub) = None"
  shows "\<exists>res. translateMaps dec srcMaps sub = Inr res \<and> length res = length srcMaps
           \<and> (\<forall>i<length srcMaps. Translate dec (srcMaps ! i) sub = (Some (res ! i), None))"
  using assms
proof (induction srcMaps)
  case Nil
  show ?case by simp
next
  case (Cons val vals)
  from Cons.prems have "snd (Translate dec val sub) = None" by auto
  then obtain r where r: "Translate dec val sub = (Some r, None)"
    and m: "mapValue (fst (Translate dec val sub)) = r"
    using Translate_result by blast
  from Cons.prems have "\<forall>i<length vals. snd (Translate dec (vals ! i) sub) = None" by auto
  with Cons.IH obtain res where res: "translateMaps dec vals sub = Inr res"
    "length res = length vals"
    "\<forall>i<length vals. Translate dec (vals ! i) sub = (Some (res ! i), None)" by blast
  from r m have "mapValue (Some r) = r" by simp
  with r res(1) have "translateMaps dec (val # vals) sub = Inr (r # res)" by simp
  moreover have "\<forall>i<length (val # vals). Translate dec ((val # vals) ! i) sub
      = (Some ((r # res) ! i), None)"
    using r res(3) by (auto simp: nth_Cons split: nat.splits)
  ultimately show ?case using res(2) by simp
qed

lemma translateMaps_first_failure:
  assumes "i < length srcMaps" "snd (Translate dec (srcMaps ! i) sub) = Some err"
    and "\<forall>j<i. snd (Translate dec (srcMaps ! j) sub) = None"
  shows "translateMaps dec srcMaps sub = Inl err"
  using assms
proof (induction srcMaps arbitrary: i)
  case Nil
  then show ?case by simp
next
  case (Cons val vals)
  show ?case
  proof (cases i)
    case 0
    with Cons.prems(2) show ?thesis by (cases "Translate dec val sub") simp
  next
    case (Suc n)
    with Cons.prems have "n < length vals" "snd (Translate dec (vals ! n) sub) = Some err"
      by simp_all
    moreover have "\<forall>j<n. snd (Translate dec (vals ! j) sub) = None"
    proof (intro allI impI)
      fix j assume "j < n"
      then have "Suc j < i" using Suc by simp
      with Cons.prems(3) have "snd (Translate dec ((val # vals) ! Suc j) sub) = None" by blast
      then show "snd (Translate dec (vals ! j) sub) = None" by simp
    qed
    ultimately have rest: "translateMaps dec vals sub = Inl err" by (rule Cons.IH)
    from Cons.prems(3) Suc have "snd (Translate dec ((val # vals) ! 0) sub) = None" by blast
    then have "snd (Translate dec val sub) = None" by simp
    with rest show ?thesis by (cases "Translate dec val sub") simp
  qed
qed

lemma translateFields_abort:
  assumes "checkMandatory (pre @ (attr, v) # post) description = None"
    and "translateFields dec (pre @ (attr, v) # post) description pre [] = Inr result"
    and "translateField dec (pre @ (attr, v) # post) description attr v result = Inl ret"
  shows "Translate dec (pre @ (attr, v) # post) (Some description) = ret"
proof -
  have "translateFields dec (pre @ (attr, v) # post) description (pre @ (attr, v) # post) []
      = Inl ret"
    using assms(2,3) by (simp add: translateFields_append [of _ _ _ pre])
  with assms(1) show ?thesis by simp
qed

text \<open>
  What the loop over \<^verbatim>\<open>srcMaps\<close> returns on success, what a step of the second loop does
  to the result when no function of the description can write into it, and the step of a
  \<^verbatim>\<open>MapArrayTranslation\<close>.
\<close>

lemma translateMaps_Inr:
  assumes "translateMaps dec ms sub = Inr res"
  shows "list_all2 (\<lambda>m r. Translate dec m sub = (Some r, None)) ms res"
  using assms
proof (induction ms arbitrary: res)
  case Nil
  then show ?case by simp
next
  case (Cons m ms)
  from Cons.prems obtain tr rest where tr: "Translate dec m sub = (tr, None)"
    and rest: "translateMaps dec ms sub = Inr rest" and res: "res = mapValue tr # rest"
    by (auto split: prod.splits option.splits sum.splits)
  from tr have "snd (Translate dec m sub) = None" by simp
  from Translate_result [OF this] tr have "Translate dec m sub = (Some (mapValue tr), None)"
    by auto
  with Cons.IH [OF rest] res show ?case by simp
qed

lemma translateField_update:
  assumes "noModifyInsert description"
    and "translateField dec src description attr v result = Inr result'"
  shows "result' = result
       \<or> (\<exists>md x. map_of description attr = Some md
             \<and> result' = AList.update (fieldTarget md attr) x result)"
proof (cases "map_of description attr")
  case None
  with assms show ?thesis by (simp add: translateField.simps)
next
  case (Some md)
  show ?thesis
  proof (cases "isDescription md")
    case True
    with assms(1) Some have ty: "Type md \<noteq> ModifyTranslation"
      using noModifyInsert_lookup by blast
    from True have ns: "\<not> isString md" by (cases md) auto
    from assms(2) Some True ns ty
    have "result' = result \<or> (\<exists>x. result' = AList.update (targetName md attr) x result)"
      by (auto simp: translateField.simps
          split: TranslationType.splits option.splits prod.splits Value.splits sum.splits)
    with Some ns show ?thesis by (auto simp: fieldTarget_def)
  next
    case False
    with assms(2) Some
    have "isString md \<and> (\<exists>x. result' = AList.update (str md) x result)"
      by (auto simp: translateField.simps split: if_splits option.splits prod.splits)
    with Some show ?thesis by (auto simp: fieldTarget_def)
  qed
qed

lemma translateFields_other_targets:
  assumes "noModifyInsert description"
    and "\<forall>(a, x) \<in> set fs. \<forall>md. map_of description a = Some md \<longrightarrow> fieldTarget md a \<noteq> t"
    and "translateFields dec src description fs result = Inr result'"
  shows "map_of result' t = map_of result t"
  using assms(2,3)
proof (induction fs arbitrary: result)
  case Nil
  then show ?case by simp
next
  case (Cons f fs)
  obtain a x where f: "f = (a, x)" by (cases f)
  with Cons.prems(2) obtain r1 where
    r1: "translateField dec src description a x result = Inr r1"
    and rest: "translateFields dec src description fs r1 = Inr result'"
    by (auto split: sum.splits)
  from Cons.prems(1) have "\<forall>(a, x) \<in> set fs. \<forall>md. map_of description a = Some md
      \<longrightarrow> fieldTarget md a \<noteq> t" by simp
  from Cons.IH [OF this rest] have "map_of result' t = map_of r1 t" .
  moreover have "map_of r1 t = map_of result t"
  proof -
    from translateField_update [OF assms(1) r1]
    consider "r1 = result"
      | md y where "map_of description a = Some md" "r1 = AList.update (fieldTarget md a) y result"
      by blast
    then show ?thesis
    proof cases
      case 1
      then show ?thesis by simp
    next
      case 2
      with Cons.prems(1) f have "fieldTarget md a \<noteq> t" by simp
      with 2 show ?thesis by (simp add: update_conv')
    qed
  qed
  ultimately show ?case by simp
qed

lemma MapArray_step:
  assumes "map_of description attr = Some md" "isDescription md"
    and "Type md = MapArrayTranslation" "dec v = Inr srcMaps"
  shows "translateField dec src description attr v result =
      (case translateMaps dec srcMaps (SubTranslation md) of
         Inl err \<Rightarrow> Inl (None, Some err)
       | Inr res \<Rightarrow> Inr (AList.update (targetName md attr) (VMapArray res) result))"
proof -
  from assms(2) have "\<not> isString md" by (cases md) auto
  with assms show ?thesis by (simp add: translateField.simps)
qed

lemma MapArray_returned:
  assumes md: "map_of description attr = Some md" "isDescription md"
      "Type md = MapArrayTranslation"
    and dec: "dec v = Inr srcMaps"
    and nmi: "noModifyInsert description"
    and later: "\<forall>(a, x) \<in> set post. \<forall>md'. map_of description a = Some md'
        \<longrightarrow> fieldTarget md' a \<noteq> targetName md attr"
    and tr: "Translate dec (pre @ (attr, v) # post) (Some description) = (Some result, None)"
  shows "\<exists>res. map_of result (targetName md attr) = Some (VMapArray res)
      \<and> length res = length srcMaps
      \<and> (\<forall>i<length srcMaps.
            Translate dec (srcMaps ! i) (SubTranslation md) = (Some (res ! i), None))"
proof -
  let ?src = "pre @ (attr, v) # post"
  from Translate_success [OF tr] obtain r2 where
    loop2: "translateFields dec ?src description ?src [] = Inr r2"
    and "insertMissing ?src description r2 = Inr result"
    by (auto simp: mapValue_def)
  with nmi have r2: "result = r2" using insertMissing_noInsert_result by blast
  from loop2 obtain r0 where
    r0: "translateFields dec ?src description pre [] = Inr r0"
    and rest: "translateFields dec ?src description ((attr, v) # post) r0 = Inr r2"
    by (auto simp: translateFields_append [of _ _ _ pre] split: sum.splits)
  from rest obtain r1 where
    r1: "translateField dec ?src description attr v r0 = Inr r1"
    and after: "translateFields dec ?src description post r1 = Inr r2"
    by (auto split: sum.splits)
  from r1 MapArray_step [where dec = dec and v = v and src = ?src and result = r0, OF md dec]
  obtain res where
    res: "translateMaps dec srcMaps (SubTranslation md) = Inr res"
    and upd: "r1 = AList.update (targetName md attr) (VMapArray res) r0"
    by (auto split: sum.splits)
  from translateMaps_Inr [OF res]
  have all2: "list_all2 (\<lambda>m r. Translate dec m (SubTranslation md) = (Some r, None)) srcMaps res" .
  then have len: "length res = length srcMaps" by (simp add: list_all2_lengthD)
  have el: "\<forall>i<length srcMaps.
      Translate dec (srcMaps ! i) (SubTranslation md) = (Some (res ! i), None)"
    using list_all2_nthD [OF all2] by blast
  from translateFields_other_targets [OF nmi later after]
  have "map_of r2 (targetName md attr) = map_of r1 (targetName md attr)" .
  with upd r2 have "map_of result (targetName md attr) = Some (VMapArray res)"
    by (simp add: update_conv')
  with len el show ?thesis by blast
qed

text \<open>
  C3, as stated, at a \<^verbatim>\<open>MapArrayTranslation\<close> of the field \<^verbatim>\<open>M\<close> with the target name \<^verbatim>\<open>m\<close>
  and a string entry that renames the field \<^verbatim>\<open>N\<close>, visited later, to \<^verbatim>\<open>m\<close> as well: the
  value of \<^verbatim>\<open>M\<close> decodes to a sequence of one map, the call succeeds, and the record it
  returns holds the string of \<^verbatim>\<open>N\<close> under \<^verbatim>\<open>m\<close>, not a sequence.
\<close>

theorem MapArray_preserves_order_counterexample:
  "map_of [(''M'', DDescription None False None None (Some [(''AA'', DString ''a'')]) ''m''
                    MapArrayTranslation),
           (''N'', DString ''m'')] ''M''
     = Some (DDescription None False None None (Some [(''AA'', DString ''a'')]) ''m''
               MapArrayTranslation)
   \<and> sliceOfMaps (VMapArray [[(''AA'', VString ''1'')]]) = Inr [[(''AA'', VString ''1'')]]
   \<and> Translate sliceOfMaps
        [(''M'', VMapArray [[(''AA'', VString ''1'')]]), (''N'', VString ''x'')]
        (Some [(''M'', DDescription None False None None (Some [(''AA'', DString ''a'')]) ''m''
                         MapArrayTranslation),
               (''N'', DString ''m'')])
     = (Some [(''m'', VString ''x'')], None)"
proof -
  have t: "TrimSpace ''1'' = ''1''" "TrimSpace ''x'' = ''x''" by code_simp+
  show ?thesis
    by (simp add: translateField.simps StringMap_def sliceOfMaps_def targetName_def
        mapValue_def t)
qed

text \<open>
  C3, amended. Let \<^verbatim>\<open>Translate\<close> apply a \<^verbatim>\<open>MapArrayTranslation\<close> to a field whose value
  decodes to the sequence \<open>srcMaps\<close>, the fields \<open>pre\<close> being visited before it and \<open>post\<close>
  after it. When the call succeeds, the description has no \<^verbatim>\<open>ModifyTranslation\<close> and no
  \<^verbatim>\<open>InsertTranslation\<close> entry, and no field of \<open>post\<close> has the same target name, the
  record that \<^verbatim>\<open>Translate\<close> returns holds under the target name a sequence of the length
  of \<open>srcMaps\<close> whose element at every index \<open>i\<close> is the translation of the source element
  at \<open>i\<close> with the \<^verbatim>\<open>SubTranslation\<close>. In any case the step of the field stores that
  sequence under the target name when every element translates; when an element fails,
  the step leaves with the error of the first such element and no result, and so does the
  whole call of \<^verbatim>\<open>Translate\<close> that reached the field.
\<close>

theorem MapArray_preserves_order:
  assumes "map_of description attr = Some md" "isDescription md"
    and "Type md = MapArrayTranslation" "dec v = Inr srcMaps"
  shows "(noModifyInsert description
          \<and> (\<forall>(a, x) \<in> set post. \<forall>md'. map_of description a = Some md'
                \<longrightarrow> fieldTarget md' a \<noteq> targetName md attr)
          \<and> Translate dec (pre @ (attr, v) # post) (Some description) = (Some returned, None)
          \<longrightarrow> (\<exists>res. map_of returned (targetName md attr) = Some (VMapArray res)
                 \<and> length res = length srcMaps
                 \<and> (\<forall>i<length srcMaps.
                       Translate dec (srcMaps ! i) (SubTranslation md) = (Some (res ! i), None))))
     \<and> ((\<forall>i<length srcMaps. snd (Translate dec (srcMaps ! i) (SubTranslation md)) = None) \<longrightarrow>
          (\<exists>res. translateField dec src description attr v result
                    = Inr (AList.update (targetName md attr) (VMapArray res) result)
             \<and> length res = length srcMaps
             \<and> (\<forall>i<length srcMaps.
                   Translate dec (srcMaps ! i) (SubTranslation md) = (Some (res ! i), None))))
     \<and> ((\<exists>i<length srcMaps. snd (Translate dec (srcMaps ! i) (SubTranslation md)) \<noteq> None) \<longrightarrow>
          (\<exists>i<length srcMaps. \<exists>err.
              snd (Translate dec (srcMaps ! i) (SubTranslation md)) = Some err
            \<and> (\<forall>j<i. snd (Translate dec (srcMaps ! j) (SubTranslation md)) = None)
            \<and> translateField dec src description attr v result = Inl (None, Some err)
            \<and> (checkMandatory (pre @ (attr, v) # post) description = None
                  \<and> translateFields dec (pre @ (attr, v) # post) description pre [] = Inr result'
                \<longrightarrow> Translate dec (pre @ (attr, v) # post) (Some description)
                      = (None, Some err))))"
proof (intro conjI impI)
  note step = MapArray_step [where dec = dec and v = v, OF assms]
  {
    assume "noModifyInsert description
          \<and> (\<forall>(a, x) \<in> set post. \<forall>md'. map_of description a = Some md'
                \<longrightarrow> fieldTarget md' a \<noteq> targetName md attr)
          \<and> Translate dec (pre @ (attr, v) # post) (Some description) = (Some returned, None)"
    then show "\<exists>res. map_of returned (targetName md attr) = Some (VMapArray res)
                 \<and> length res = length srcMaps
                 \<and> (\<forall>i<length srcMaps.
                       Translate dec (srcMaps ! i) (SubTranslation md) = (Some (res ! i), None))"
      using MapArray_returned [where dec = dec and v = v, OF assms] by blast
  }
  {
    assume "\<forall>i<length srcMaps. snd (Translate dec (srcMaps ! i) (SubTranslation md)) = None"
    then obtain res where "translateMaps dec srcMaps (SubTranslation md) = Inr res"
      "length res = length srcMaps"
      "\<forall>i<length srcMaps. Translate dec (srcMaps ! i) (SubTranslation md) = (Some (res ! i), None)"
      using translateMaps_all by blast
    with step [of src result]
    show "\<exists>res. translateField dec src description attr v result
                    = Inr (AList.update (targetName md attr) (VMapArray res) result)
             \<and> length res = length srcMaps
             \<and> (\<forall>i<length srcMaps.
                   Translate dec (srcMaps ! i) (SubTranslation md) = (Some (res ! i), None))"
      by (intro exI [of _ res]) simp
  }
  {
    let ?fails = "\<lambda>i. i < length srcMaps
        \<and> snd (Translate dec (srcMaps ! i) (SubTranslation md)) \<noteq> None"
    assume "\<exists>i<length srcMaps. snd (Translate dec (srcMaps ! i) (SubTranslation md)) \<noteq> None"
    then have "\<exists>i. ?fails i" by blast
    then obtain i where i: "?fails i" and least: "\<forall>j<i. \<not> ?fails j"
      using exists_least_iff [of ?fails] by blast
    from i obtain err where err: "snd (Translate dec (srcMaps ! i) (SubTranslation md)) = Some err"
      by auto
    from i least have before: "\<forall>j<i. snd (Translate dec (srcMaps ! j) (SubTranslation md)) = None"
      by auto
    from i err before have m: "translateMaps dec srcMaps (SubTranslation md) = Inl err"
      using translateMaps_first_failure by blast
    with step [of src result]
    have f: "translateField dec src description attr v result = Inl (None, Some err)"
      by simp
    from m step [of "pre @ (attr, v) # post" result']
    have f': "translateField dec (pre @ (attr, v) # post) description attr v result'
        = Inl (None, Some err)" by simp
    have "Translate dec (pre @ (attr, v) # post) (Some description) = (None, Some err)"
      if "checkMandatory (pre @ (attr, v) # post) description = None
          \<and> translateFields dec (pre @ (attr, v) # post) description pre [] = Inr result'"
      using that f' translateFields_abort [of pre attr v post description dec result'] by blast
    with i err before f
    show "\<exists>i<length srcMaps. \<exists>err.
              snd (Translate dec (srcMaps ! i) (SubTranslation md)) = Some err
            \<and> (\<forall>j<i. snd (Translate dec (srcMaps ! j) (SubTranslation md)) = None)
            \<and> translateField dec src description attr v result = Inl (None, Some err)
            \<and> (checkMandatory (pre @ (attr, v) # post) description = None
                  \<and> translateFields dec (pre @ (attr, v) # post) description pre [] = Inr result'
                \<longrightarrow> Translate dec (pre @ (attr, v) # post) (Some description)
                      = (None, Some err))"
      by blast
  }
qed

text \<open>The theorem at the description and source of \<^verbatim>\<open>TestMapArrayTranslation\<close>.\<close>

theorem MapArray_preserves_order_witness:
  "map_of [(''M'', DDescription None False None None
              (Some [(''AA'', DString ''a''), (''BB'', DString ''b'')]) ''m'' MapArrayTranslation)] ''M''
     = Some (DDescription None False None None
              (Some [(''AA'', DString ''a''), (''BB'', DString ''b'')]) ''m'' MapArrayTranslation)
   \<and> sliceOfMaps (VMapArray [[(''AA'', VString ''1''), (''BB'', VString ''1'')],
                              [(''AA'', VString ''2''), (''BB'', VString ''3'')]])
     = Inr [[(''AA'', VString ''1''), (''BB'', VString ''1'')],
            [(''AA'', VString ''2''), (''BB'', VString ''3'')]]
   \<and> noModifyInsert [(''M'', DDescription None False None None
              (Some [(''AA'', DString ''a''), (''BB'', DString ''b'')]) ''m'' MapArrayTranslation)]
   \<and> Translate sliceOfMaps
        [(''M'', VMapArray [[(''AA'', VString ''1''), (''BB'', VString ''1'')],
                            [(''AA'', VString ''2''), (''BB'', VString ''3'')]])]
        (Some [(''M'', DDescription None False None None
            (Some [(''AA'', DString ''a''), (''BB'', DString ''b'')]) ''m'' MapArrayTranslation)])
     = (Some [(''m'', VMapArray [[(''a'', VString ''1''), (''b'', VString ''1'')],
                                 [(''a'', VString ''2''), (''b'', VString ''3'')]])], None)
   \<and> map_of [(''m'', VMapArray [[(''a'', VString ''1''), (''b'', VString ''1'')],
                                 [(''a'', VString ''2''), (''b'', VString ''3'')]])] ''m''
     = Some (VMapArray [[(''a'', VString ''1''), (''b'', VString ''1'')],
                        [(''a'', VString ''2''), (''b'', VString ''3'')]])"
proof -
  let ?sub = "Some [(''AA'', DString ''a''), (''BB'', DString ''b'')]"
  let ?md = "DDescription None False None None ?sub ''m'' MapArrayTranslation"
  let ?d = "[(''M'', ?md)]"
  let ?m0 = "[(''AA'', VString ''1''), (''BB'', VString ''1'')]"
  let ?m1 = "[(''AA'', VString ''2''), (''BB'', VString ''3'')]"
  let ?v = "VMapArray [?m0, ?m1]"
  have t: "TrimSpace ''1'' = ''1''" "TrimSpace ''2'' = ''2''" "TrimSpace ''3'' = ''3''"
    by code_simp+
  have e0: "Translate sliceOfMaps ?m0 ?sub
      = (Some [(''a'', VString ''1''), (''b'', VString ''1'')], None)"
    by (simp add: translateField.simps StringMap_def t)
  have e1: "Translate sliceOfMaps ?m1 ?sub
      = (Some [(''a'', VString ''2''), (''b'', VString ''3'')], None)"
    by (simp add: translateField.simps StringMap_def t)
  have h1: "map_of ?d ''M'' = Some ?md" by simp
  have h2: "isDescription ?md" by simp
  have h3: "Type ?md = MapArrayTranslation" by simp
  have h4: "sliceOfMaps ?v = Inr [?m0, ?m1]" by (simp add: sliceOfMaps_def)
  have n: "noModifyInsert ?d" by (simp add: noModifyInsert_def)
  have later: "\<forall>(a, x) \<in> set ([] :: Record). \<forall>md'. map_of ?d a = Some md'
      \<longrightarrow> fieldTarget md' a \<noteq> targetName ?md ''M''" by simp
  let ?returned = "[(''m'', VMapArray [[(''a'', VString ''1''), (''b'', VString ''1'')],
                                       [(''a'', VString ''2''), (''b'', VString ''3'')]])]"
  have tr: "Translate sliceOfMaps ([] @ (''M'', ?v) # []) (Some ?d) = (Some ?returned, None)"
    by (simp add: translateField.simps StringMap_def sliceOfMaps_def targetName_def
        mapValue_def t)
  from MapArray_preserves_order [where dec = sliceOfMaps and v = ?v and pre = "[]"
      and post = "[]" and returned = ?returned, OF h1 h2 h3 h4] n later tr
  obtain res where
    stored: "map_of ?returned (targetName ?md ''M'') = Some (VMapArray res)"
    and len: "length res = length [?m0, ?m1]"
    and el: "\<forall>i<length [?m0, ?m1].
        Translate sliceOfMaps ([?m0, ?m1] ! i) (SubTranslation ?md) = (Some (res ! i), None)"
    by blast
  from len obtain a b where res: "res = [a, b]"
    by (auto simp: length_Suc_conv)
  have "Translate sliceOfMaps ?m0 ?sub = (Some (res ! 0), None)"
    using el [rule_format, of 0] by (simp del: Translate.simps)
  with e0 res have a: "a = [(''a'', VString ''1''), (''b'', VString ''1'')]"
    by (simp del: Translate.simps)
  have "Translate sliceOfMaps ?m1 ?sub = (Some (res ! 1), None)"
    using el [rule_format, of 1] by (simp del: Translate.simps)
  with e1 res have b: "b = [(''a'', VString ''2''), (''b'', VString ''3'')]"
    by (simp del: Translate.simps)
  from stored res a b have "map_of ?returned ''m''
      = Some (VMapArray [[(''a'', VString ''1''), (''b'', VString ''1'')],
                         [(''a'', VString ''2''), (''b'', VString ''3'')]])"
    by (simp only: targetName_def Descr.sel list.simps if_False)
  with tr h1 h4 n show ?thesis by (simp del: Translate.simps)
qed

section \<open>Insertion of missing values\<close>

lemma insertMissing_append:
  "insertMissing src (pre @ post) result =
     (case insertMissing src pre result of
        Inl ret \<Rightarrow> Inl ret
      | Inr result' \<Rightarrow> insertMissing src post result')"
proof (induction pre arbitrary: result)
  case Nil
  show ?case by simp
next
  case (Cons e pre)
  obtain attr md where "e = (attr, md)" by (cases e)
  with Cons show ?case by (simp split: option.splits prod.splits)
qed

lemma insertMissing_noInsert_unchanged:
  assumes "noInsert description" "insertMissing src description result = Inr result'"
  shows "result' = result"
  using assms
proof (induction description)
  case Nil
  then show ?case by simp
next
  case (Cons e description)
  obtain k md where "e = (k, md)" by (cases e)
  with Cons show ?case by (auto simp: noInsert_def split: if_splits)
qed

text \<open>
  C1, as stated, at two \<^verbatim>\<open>InsertTranslation\<close> entries \<^verbatim>\<open>K1\<close> and \<^verbatim>\<open>K2\<close> with the same
  target name \<^verbatim>\<open>t\<close> and an empty source: after the second loop the result is empty, so
  \<^verbatim>\<open>t\<close> is absent for both, yet only the function of \<^verbatim>\<open>K1\<close>, which the third loop visits
  first, is called; the value of \<^verbatim>\<open>K2\<close> is not stored.
\<close>

theorem Insert_fires_iff_absent_counterexample:
  "translateFields sliceOfMaps []
      [(''K1'', DDescription (Some (\<lambda>src dst attr. (dst, VInt 1, None))) False None None None
                  ''t'' InsertTranslation),
       (''K2'', DDescription (Some (\<lambda>src dst attr. (dst, VInt 2, None))) False None None None
                  ''t'' InsertTranslation)] [] [] = Inr []
   \<and> map_of ([] :: Record) ''t'' = None
   \<and> Translate sliceOfMaps []
        (Some [(''K1'', DDescription (Some (\<lambda>src dst attr. (dst, VInt 1, None))) False None None None
                          ''t'' InsertTranslation),
               (''K2'', DDescription (Some (\<lambda>src dst attr. (dst, VInt 2, None))) False None None None
                          ''t'' InsertTranslation)])
     = (Some [(''t'', VInt 1)], None)"
  by simp

text \<open>
  C1, amended. Let the first two loops of \<^verbatim>\<open>Translate\<close> succeed with the result \<open>r2\<close>, and
  let the third loop reach an \<^verbatim>\<open>InsertTranslation\<close> entry whose \<^verbatim>\<open>TargetName\<close> is set (not
  empty), with the function \<open>f\<close>, after the entries \<open>pre\<close> and with the result \<open>r3\<close> so
  far. The insertion fires if and only if the target name is absent from \<open>r3\<close>. When it is present, the entry leaves \<open>r3\<close> as it is,
  whatever \<open>f\<close> is. When it is absent, the value that \<open>f src r3 attr\<close> returns is stored
  under the target name, in the map as \<open>f\<close> left it; an error of \<open>f\<close> ends the call with
  that error and no result. The call goes on from there with the remaining entries. When
  no entry of \<open>pre\<close> is an \<^verbatim>\<open>InsertTranslation\<close>, \<open>r3\<close> is \<open>r2\<close>, the result of the second
  loop. Nothing is said of an entry whose \<^verbatim>\<open>TargetName\<close> is empty.
\<close>

theorem Insert_fires_iff_absent:
  assumes "isDescription md" "Type md = InsertTranslation" "InsertFunc md = Some f"
    and "TargetName md \<noteq> []"
    and "checkMandatory src (pre @ (attr, md) # post) = None"
    and "translateFields dec src (pre @ (attr, md) # post) src [] = Inr r2"
    and "insertMissing src pre r2 = Inr r3"
  shows "(map_of r3 (TargetName md) \<noteq> None \<longrightarrow>
            insertMissing src (pre @ [(attr, md)]) r2 = Inr r3)
     \<and> (map_of r3 (TargetName md) = None \<longrightarrow>
          (case f src r3 attr of
             (r', val, None) \<Rightarrow>
               insertMissing src (pre @ [(attr, md)]) r2 = Inr (AList.update (TargetName md) val r')
               \<and> map_of (AList.update (TargetName md) val r') (TargetName md) = Some val
           | (r', val, Some err) \<Rightarrow>
               insertMissing src (pre @ [(attr, md)]) r2 = Inl (None, Some err)
               \<and> Translate dec src (Some (pre @ (attr, md) # post)) = (None, Some err)))
     \<and> Translate dec src (Some (pre @ (attr, md) # post)) =
          (case insertMissing src (pre @ [(attr, md)]) r2 of
             Inl ret \<Rightarrow> ret
           | Inr r4 \<Rightarrow>
               (case insertMissing src post r4 of
                  Inl ret \<Rightarrow> ret
                | Inr result \<Rightarrow> (Some result, None)))
     \<and> (noInsert pre \<longrightarrow> r3 = r2)"
proof -
  from assms(1) have ns: "\<not> isString md" by (cases md) auto
  have step: "insertMissing src (pre @ [(attr, md)]) r2 =
      (if map_of r3 (TargetName md) \<noteq> None then Inr r3
       else (case f src r3 attr of
               (r', val, Some err) \<Rightarrow> Inl (None, Some err)
             | (r', val, None) \<Rightarrow> Inr (AList.update (TargetName md) val r')))"
    using assms(1,2,3,7) ns
    by (simp add: insertMissing_append [of _ pre] split: prod.splits option.splits)
  have "insertMissing src (pre @ (attr, md) # post) r2 =
      (case insertMissing src (pre @ [(attr, md)]) r2 of
         Inl ret \<Rightarrow> Inl ret
       | Inr r4 \<Rightarrow> insertMissing src post r4)"
    using insertMissing_append [of src "pre @ [(attr, md)]" post r2] by simp
  with assms(5,6)
  have whole: "Translate dec src (Some (pre @ (attr, md) # post)) =
      (case insertMissing src (pre @ [(attr, md)]) r2 of
         Inl ret \<Rightarrow> ret
       | Inr r4 \<Rightarrow>
           (case insertMissing src post r4 of
              Inl ret \<Rightarrow> ret
            | Inr result \<Rightarrow> (Some result, None)))"
    by (simp split: sum.splits)
  have present: "insertMissing src (pre @ [(attr, md)]) r2 = Inr r3"
    if "map_of r3 (TargetName md) \<noteq> None"
    using step that by simp
  have absent: "case f src r3 attr of
             (r', val, None) \<Rightarrow>
               insertMissing src (pre @ [(attr, md)]) r2 = Inr (AList.update (TargetName md) val r')
               \<and> map_of (AList.update (TargetName md) val r') (TargetName md) = Some val
           | (r', val, Some err) \<Rightarrow>
               insertMissing src (pre @ [(attr, md)]) r2 = Inl (None, Some err)
               \<and> Translate dec src (Some (pre @ (attr, md) # post)) = (None, Some err)"
    if "map_of r3 (TargetName md) = None"
    using step that whole by (simp add: update_conv' split: prod.splits option.splits)
  have first: "r3 = r2" if "noInsert pre"
    using that assms(7) by (rule insertMissing_noInsert_unchanged)
  from present absent whole first show ?thesis by blast
qed

text \<open>
  The theorem at the source of \<^verbatim>\<open>TestInsertTranslation\<close> and a description like the one of
  that test, whose function writes the key \<^verbatim>\<open>A\<close> into the destination and returns the
  name of the field.
\<close>

theorem Insert_fires_iff_absent_witness:
  "TargetName (DDescription
       (Some (\<lambda>src dst attr. (AList.update ''A'' (VString attr) dst, VString attr, None)))
       False None None None ''a'' InsertTranslation) \<noteq> []
   \<and> insertMissing [(''B'', VInt 2)] [] [] = Inr []
   \<and> map_of ([] :: Record) ''a'' = None
   \<and> Translate sliceOfMaps [(''B'', VInt 2)]
        (Some [(''Hello'', DDescription
                  (Some (\<lambda>src dst attr. (AList.update ''A'' (VString attr) dst,
                                           VString attr, None)))
                  False None None None ''a'' InsertTranslation)])
     = (Some [(''A'', VString ''Hello''), (''a'', VString ''Hello'')], None)"
proof -
  let ?f = "\<lambda>(src :: Record) (dst :: Record) attr.
      (AList.update ''A'' (VString attr) dst, VString attr, None :: error option)"
  let ?md = "DDescription (Some ?f) False None None None ''a'' InsertTranslation"
  let ?src = "[(''B'', VInt 2)]"
  have h1: "isDescription ?md" by simp
  have h2: "Type ?md = InsertTranslation" by simp
  have h3: "InsertFunc ?md = Some ?f" by simp
  have h0: "TargetName ?md \<noteq> []" by simp
  have h4: "checkMandatory ?src ([] @ (''Hello'', ?md) # []) = None" by simp
  have h5: "translateFields sliceOfMaps ?src ([] @ (''Hello'', ?md) # []) ?src [] = Inr []"
    by (simp add: translateField.simps)
  have h6: "insertMissing ?src [] [] = Inr []" by simp
  note rule = Insert_fires_iff_absent [OF h1 h2 h3 h0 h4 h5 h6]
  from rule have fired: "insertMissing ?src [(''Hello'', ?md)] []
      = Inr [(''A'', VString ''Hello''), (''a'', VString ''Hello'')]"
    by (simp del: Translate.simps insertMissing.simps)
  from rule have "Translate sliceOfMaps ?src (Some [(''Hello'', ?md)]) =
      (case insertMissing ?src [(''Hello'', ?md)] [] of
         Inl ret \<Rightarrow> ret
       | Inr r4 \<Rightarrow>
           (case insertMissing ?src [] r4 of
              Inl ret \<Rightarrow> ret
            | Inr result \<Rightarrow> (Some result, None)))"
    by (simp del: Translate.simps insertMissing.simps)
  then have "Translate sliceOfMaps ?src (Some [(''Hello'', ?md)])
     = (Some [(''A'', VString ''Hello''), (''a'', VString ''Hello'')], None)"
    unfolding fired by simp
  with h0 h6 show ?thesis by simp
qed

section \<open>Translation and verification\<close>






















end
